theory Spec2Isabelle
  imports Complex_Main "HOL-Library.Sublist"
begin

section \<open>Python values, exceptions and configuration attributes\<close>

text \<open>
  Exceptions are values: an instance of a subclass of Python's \<open>Exception\<close> with its
  message, or \<open>asyncio.CancelledError\<close>, which derives from \<open>BaseException\<close> only, so
  that an \<open>except Exception\<close> clause lets it through.
\<close>

datatype exception_class = ValueError | TypeError | OSError | OverflowError | OtherError

datatype py_exception =
    Exception exception_class string
  | CancelledError

fun is_Exception :: "py_exception \<Rightarrow> bool" where
  "is_Exception (Exception _ _) = True"
| "is_Exception CancelledError = False"

text \<open>
  The attributes of a \<open>ComponentConfig\<close> are a protobuf \<open>Struct\<close>: a map from field names to
  \<open>Value\<close>s. A \<open>number_value\<close> is a double; the finite doubles are rationals and the
  comparisons made by the source are exact on them, so numbers are modelled by \<open>rat\<close>
  (NaN and the infinities are left out). Reading the wrong kind of a \<open>Value\<close> yields that
  kind's default, and indexing \<open>fields\<close> with an absent key yields an unset \<open>Value\<close>.
\<close>

datatype pb_value =
    NullValue
  | NumberValue rat
  | StringValue string
  | BoolValue bool
  | ListValue "pb_value list"

type_synonym fields = "string \<rightharpoonup> pb_value"

definition get_field :: "fields \<Rightarrow> string \<Rightarrow> pb_value" where
  "get_field f k = (case f k of None \<Rightarrow> NullValue | Some v \<Rightarrow> v)"

fun number_value :: "pb_value \<Rightarrow> rat" where
  "number_value (NumberValue r) = r"
| "number_value _ = 0"

fun string_value :: "pb_value \<Rightarrow> string" where
  "string_value (StringValue s) = s"
| "string_value _ = []"

fun list_value :: "pb_value \<Rightarrow> pb_value list" where
  "list_value (ListValue vs) = vs"
| "list_value _ = []"

text \<open>Python's \<open>int\<close> of a float truncates towards zero.\<close>

definition py_int :: "rat \<Rightarrow> int" where
  "py_int r = (if 0 \<le> r then \<lfloor>r\<rfloor> else \<lceil>r\<rceil>)"

section \<open>Sensors and the component's fields\<close>

text \<open>
  A sensor is an external collaborator: it has a name, and awaiting its
  \<open>get_readings\<close> either returns readings (of a type \<open>'r\<close> left open) or raises.
  Dependencies are keyed by resource name; \<open>Sensor.get_resource_name\<close> builds the key
  of the sensor API.
\<close>

record 'r sensor =
  name :: string
  get_readings :: "py_exception + 'r"

datatype resource_name = ResourceName string string string string

definition get_resource_name :: "string \<Rightarrow> resource_name" where
  "get_resource_name n = ResourceName ''rdk'' ''component'' ''sensor'' n"

type_synonym 'r dependencies = "resource_name \<rightharpoonup> 'r sensor"

text \<open>
  Paths are lists of components below the root, so \<open>os.path.join d n\<close> is \<open>d @ [n]\<close>.
  This is what \<open>os.path.join\<close> computes when \<open>n\<close> is a single component; resource
  names, \<open>next.json\<close> and \<open>current.json\<close> are.
\<close>

type_synonym path = "string list"

definition path_join :: "path \<Rightarrow> string \<Rightarrow> path" where
  "path_join d n = d @ [n]"

record http_server =
  srv_port :: int
  srv_directory :: "path option"

text \<open>The fields of a \<open>SensorHost\<close>; threads and tasks are held by their identifiers.\<close>

record 'r sensor_host =
  sensors :: "'r sensor list"
  port :: int
  refresh_interval :: rat
  server :: "http_server option"
  server_thread :: "nat option"
  refresh_task :: "nat option"
  temp_dir :: "path option"
  running :: bool

definition init :: "'r sensor_host" where
  "init = \<lparr> sensors = [], port = 8080, refresh_interval = 5, server = None,
            server_thread = None, refresh_task = None, temp_dir = None, running = False \<rparr>"

section \<open>The environment\<close>

text \<open>
  Everything outside the object is one record: the directories and files of the file
  system, the ports that cannot be bound because a socket listens on them, the threads
  (alive or not) and the asyncio tasks of the process, the names \<open>tempfile\<close> will draw
  next, and the chronological trace of the operations performed and log records written.
\<close>

datatype task_state = Pending | Cancelling | Done

datatype log_record =
    Sensor_not_found string
  | Configured nat int
  | Created_temp_directory path
  | Server_started int
  | Server_start_failed py_exception
  | Server_stopped
  | Refresh_task_started rat
  | Refresh_loop_error py_exception
  | Update_failed string py_exception
  | Get_readings_failed string py_exception

datatype event =
    Log log_record
  | Mkdir path
  | Rmtree path
  | Socket_bind int
  | Thread_start nat
  | Server_shutdown int
  | Server_close int
  | Thread_join nat
  | Create_task nat
  | Task_cancel nat
  | Sleep rat
  | Get_readings string
  | Open_w path
  | Write path string
  | Replace path path

record world =
  w_dirs :: "path list"
  w_files :: "path \<rightharpoonup> string"
  w_bound :: "int list"
  w_threads :: "bool list"
  w_tasks :: "task_state list"
  w_rand :: "string list"
  w_trace :: "event list"

definition emit :: "event \<Rightarrow> world \<Rightarrow> world" where
  "emit e w = w\<lparr>w_trace := w_trace w @ [e]\<rparr>"

definition new_events :: "world \<Rightarrow> world \<Rightarrow> event list" where
  "new_events w w' = drop (length (w_trace w)) (w_trace w')"

subsection \<open>File system calls\<close>

definition path_exists :: "world \<Rightarrow> path \<Rightarrow> bool" where
  "path_exists w p \<longleftrightarrow> p \<in> set (w_dirs w) \<or> w_files w p \<noteq> None"

text \<open>\<open>open(p, 'w')\<close>: creates or truncates the file; the parent directory must exist.\<close>

definition open_w :: "path \<Rightarrow> world \<Rightarrow> (py_exception + unit) \<times> world" where
  "open_w p w =
     (if p = [] \<or> p \<in> set (w_dirs w) then (Inl (Exception OSError ''Is a directory''), w)
      else if butlast p \<notin> set (w_dirs w) then (Inl (Exception OSError ''No such file or directory''), w)
      else (Inr (), emit (Open_w p) (w\<lparr>w_files := (w_files w)(p \<mapsto> [])\<rparr>)))"

text \<open>Writing text to the file opened at \<open>p\<close> and closing it.\<close>

definition write_text :: "path \<Rightarrow> string \<Rightarrow> world \<Rightarrow> world" where
  "write_text p txt w = emit (Write p txt) (w\<lparr>w_files := (w_files w)(p \<mapsto> txt)\<rparr>)"

text \<open>
  \<open>os.replace(src, dst)\<close>: an atomic rename. When it fails nothing has changed; when it
  succeeds \<open>dst\<close> holds the content of \<open>src\<close> and \<open>src\<close> is gone.
\<close>

definition os_replace :: "path \<Rightarrow> path \<Rightarrow> world \<Rightarrow> (py_exception + unit) \<times> world" where
  "os_replace src dst w =
     (case w_files w src of
        None \<Rightarrow> (Inl (Exception OSError ''No such file or directory''), w)
      | Some txt \<Rightarrow>
          if dst = [] \<or> dst \<in> set (w_dirs w) then (Inl (Exception OSError ''Is a directory''), w)
          else if butlast dst \<notin> set (w_dirs w) then (Inl (Exception OSError ''No such file or directory''), w)
          else (Inr (), emit (Replace src dst) (w\<lparr>w_files := ((w_files w)(src := None))(dst \<mapsto> txt)\<rparr>)))"

text \<open>
  \<open>os.makedirs(p, exist_ok=True)\<close> walks the prefixes of \<open>p\<close> from the root and makes
  each directory that is missing; a file in the way is an error.
\<close>

fun mkdir_all :: "path list \<Rightarrow> world \<Rightarrow> (py_exception + unit) \<times> world" where
  "mkdir_all [] w = (Inr (), w)"
| "mkdir_all (q # qs) w =
     (if q \<in> set (w_dirs w) then mkdir_all qs w
      else if w_files w q \<noteq> None then (Inl (Exception OSError ''File exists''), w)
      else mkdir_all qs (emit (Mkdir q) (w\<lparr>w_dirs := q # w_dirs w\<rparr>)))"

definition makedirs :: "path \<Rightarrow> world \<Rightarrow> (py_exception + unit) \<times> world" where
  "makedirs p w = mkdir_all (prefixes p) w"

text \<open>
  \<open>shutil.rmtree(p, ignore_errors=True)\<close> removes the directory \<open>p\<close> with everything below
  it and never raises; on something that is not a directory it removes nothing.
\<close>

definition rmtree :: "path \<Rightarrow> world \<Rightarrow> world" where
  "rmtree p w =
     emit (Rmtree p)
       (if p \<in> set (w_dirs w)
        then w\<lparr>w_dirs := filter (\<lambda>d. \<not> prefix p d) (w_dirs w),
               w_files := (\<lambda>q. if prefix p q then None else w_files w q)\<rparr>
        else w)"

text \<open>
  \<open>tempfile.mkdtemp(dir="/dev/shm", prefix="sensor_host_")\<close> draws names until one is
  free and makes that directory; it gives up when the names run out.
\<close>

definition shm :: path where
  "shm = [''dev'', ''shm'']"

fun mkdtemp_names :: "string list \<Rightarrow> world \<Rightarrow> (py_exception + path) \<times> world" where
  "mkdtemp_names [] w =
     (Inl (Exception OSError ''No usable temporary directory name found''), w\<lparr>w_rand := []\<rparr>)"
| "mkdtemp_names (r # rs) w =
     (let p = path_join shm (''sensor_host_'' @ r) in
      if path_exists w p then mkdtemp_names rs w
      else (Inr p, emit (Mkdir p) (w\<lparr>w_dirs := p # w_dirs w, w_rand := rs\<rparr>)))"

definition mkdtemp :: "world \<Rightarrow> (py_exception + path) \<times> world" where
  "mkdtemp w =
     (if shm \<notin> set (w_dirs w) then (Inl (Exception OSError ''No such file or directory''), w)
      else mkdtemp_names (w_rand w) w)"

section \<open>Publishing a snapshot\<close>

text \<open>
  \<open>json.dump(readings, f, indent=2, default=str)\<close> is library code: it is a parameter
  \<open>json_dump\<close>, which either yields the whole document or raises after having written
  a part of it to the file.
\<close>

datatype dump_result = Dumped string | Dump_raised string exception_class string

text \<open>The body of the \<open>try\<close> of \<open>_update_sensor_reading\<close>.\<close>

definition update_sensor_reading_try ::
  "('r \<Rightarrow> dump_result) \<Rightarrow> 'r sensor \<Rightarrow> 'r sensor_host \<Rightarrow> world \<Rightarrow> (py_exception + unit) \<times> world" where
  "update_sensor_reading_try json_dump x s w =
     (let w1 = emit (Get_readings (name x)) w in
      case get_readings x of
        Inl e \<Rightarrow> (Inl e, w1)
      | Inr readings \<Rightarrow>
          (case temp_dir s of
             None \<Rightarrow> (Inl (Exception TypeError ''expected str, bytes or os.PathLike object, not NoneType''), w1)
           | Some d \<Rightarrow>
               (let sensor_dir = path_join d (name x);
                    temp_file = path_join sensor_dir ''next.json'';
                    current_file = path_join sensor_dir ''current.json''
                in case open_w temp_file w1 of
                     (Inl e, w2) \<Rightarrow> (Inl e, w2)
                   | (Inr _, w2) \<Rightarrow>
                       (case json_dump readings of
                          Dump_raised part c m \<Rightarrow> (Inl (Exception c m), write_text temp_file part w2)
                        | Dumped txt \<Rightarrow> os_replace temp_file current_file (write_text temp_file txt w2)))))"

text \<open>\<open>_update_sensor_reading\<close>: the \<open>except Exception\<close> clause logs and raises again.\<close>

definition update_sensor_reading ::
  "('r \<Rightarrow> dump_result) \<Rightarrow> 'r sensor \<Rightarrow> 'r sensor_host \<Rightarrow> world \<Rightarrow> (py_exception + unit) \<times> world" where
  "update_sensor_reading json_dump x s w =
     (case update_sensor_reading_try json_dump x s w of
        (Inl e, w') \<Rightarrow>
          if is_Exception e then (Inl e, emit (Log (Get_readings_failed (name x) e)) w')
          else (Inl e, w')
      | (Inr u, w') \<Rightarrow> (Inr u, w'))"

text \<open>\<open>_update_all_sensor_readings\<close>: the loop over \<open>self.sensors\<close>, each in its own \<open>try\<close>.\<close>

fun update_all ::
  "('r \<Rightarrow> dump_result) \<Rightarrow> 'r sensor list \<Rightarrow> 'r sensor_host \<Rightarrow> world \<Rightarrow> (py_exception + unit) \<times> world" where
  "update_all json_dump [] s w = (Inr (), w)"
| "update_all json_dump (x # xs) s w =
     (case update_sensor_reading json_dump x s w of
        (Inl e, w') \<Rightarrow>
          if is_Exception e then update_all json_dump xs s (emit (Log (Update_failed (name x) e)) w')
          else (Inl e, w')
      | (Inr _, w') \<Rightarrow> update_all json_dump xs s w')"

definition update_all_sensor_readings ::
  "('r \<Rightarrow> dump_result) \<Rightarrow> 'r sensor_host \<Rightarrow> world \<Rightarrow> (py_exception + unit) \<times> world" where
  "update_all_sensor_readings json_dump s w = update_all json_dump (sensors s) s w"

section \<open>Threads, tasks and sockets\<close>

text \<open>
  A task is identified by its index in \<open>w_tasks\<close>, a thread by its index in
  \<open>w_threads\<close>. \<open>task.cancel()\<close> only requests the cancellation: the task sees
  \<open>CancelledError\<close> at its next \<open>await\<close> and is done after that.
\<close>

definition task_done :: "world \<Rightarrow> nat \<Rightarrow> bool" where
  "task_done w t \<longleftrightarrow> t < length (w_tasks w) \<and> w_tasks w ! t = Done"

definition task_cancel :: "nat \<Rightarrow> world \<Rightarrow> world" where
  "task_cancel t w =
     emit (Task_cancel t)
       (if t < length (w_tasks w) \<and> w_tasks w ! t = Pending
        then w\<lparr>w_tasks := (w_tasks w)[t := Cancelling]\<rparr> else w)"

definition create_task :: "world \<Rightarrow> nat \<times> world" where
  "create_task w =
     (let t = length (w_tasks w) in (t, emit (Create_task t) (w\<lparr>w_tasks := w_tasks w @ [Pending]\<rparr>)))"

definition is_alive :: "world \<Rightarrow> nat \<Rightarrow> bool" where
  "is_alive w th \<longleftrightarrow> th < length (w_threads w) \<and> w_threads w ! th"

definition thread_start :: "world \<Rightarrow> nat \<times> world" where
  "thread_start w =
     (let th = length (w_threads w) in (th, emit (Thread_start th) (w\<lparr>w_threads := w_threads w @ [True]\<rparr>)))"

text \<open>
  \<open>thread.join(timeout=1.0)\<close> on the serving thread, whose \<open>serve_forever\<close> has been
  shut down before: the thread has ended when the call returns.
\<close>

definition thread_join :: "nat \<Rightarrow> world \<Rightarrow> world" where
  "thread_join th w = emit (Thread_join th) (w\<lparr>w_threads := (w_threads w)[th := False]\<rparr>)"

text \<open>
  \<open>HTTPServer(('0.0.0.0', p), handler)\<close> binds and listens. The bind fails on a port
  number out of range and on a port in use; port 0 asks for any free port, so it is never
  in use, and each 0 in \<open>w_bound\<close> stands for one such socket.
\<close>

definition http_server_new :: "int \<Rightarrow> path option \<Rightarrow> world \<Rightarrow> (py_exception + http_server) \<times> world" where
  "http_server_new p d w =
     (if p < 0 \<or> 65535 < p then (Inl (Exception OverflowError ''bind(): port must be 0-65535.''), w)
      else if p \<noteq> 0 \<and> p \<in> set (w_bound w) then (Inl (Exception OSError ''Address already in use''), w)
      else (Inr \<lparr>srv_port = p, srv_directory = d\<rparr>, emit (Socket_bind p) (w\<lparr>w_bound := p # w_bound w\<rparr>)))"

definition server_shutdown :: "http_server \<Rightarrow> world \<Rightarrow> world" where
  "server_shutdown srv w = emit (Server_shutdown (srv_port srv)) w"

definition server_close :: "http_server \<Rightarrow> world \<Rightarrow> world" where
  "server_close srv w =
     emit (Server_close (srv_port srv)) (w\<lparr>w_bound := remove1 (srv_port srv) (w_bound w)\<rparr>)"

section \<open>Configuration and lifecycle\<close>

text \<open>\<open>validate_config\<close>: a class method, it reads the attributes and nothing else.\<close>

definition validate_config :: "fields \<Rightarrow> py_exception + (string list \<times> string list)" where
  "validate_config config =
     (if config ''sensors'' = None
      then Inl (Exception ValueError (CHR 0x27 # ''sensors'' @ CHR 0x27 # '' attribute is required''))
      else
        (let sensor_names = list_value (get_field config ''sensors'') in
         if length sensor_names = 0
         then Inl (Exception ValueError ''At least one sensor must be specified'')
         else if config ''port'' = None
         then Inl (Exception ValueError (CHR 0x27 # ''port'' @ CHR 0x27 # '' attribute is required''))
         else
           (let port = number_value (get_field config ''port'') in
            if port \<le> 0 \<or> port > 65535
            then Inl (Exception ValueError ''Port must be between 1 and 65535'')
            else Inr (map string_value sensor_names, []))))"

text \<open>\<open>_stop_server\<close>, one definition for each of its four \<open>if\<close> statements.\<close>

definition stop_refresh_task :: "'r sensor_host \<Rightarrow> world \<Rightarrow> 'r sensor_host \<times> world" where
  "stop_refresh_task s w =
     (case refresh_task s of
        None \<Rightarrow> (s, w)
      | Some t \<Rightarrow>
          if \<not> task_done w t then (s\<lparr>refresh_task := None\<rparr>, task_cancel t w) else (s, w))"

definition stop_http_server :: "'r sensor_host \<Rightarrow> world \<Rightarrow> 'r sensor_host \<times> world" where
  "stop_http_server s w =
     (case server s of
        None \<Rightarrow> (s, w)
      | Some srv \<Rightarrow> (s\<lparr>server := None\<rparr>, server_close srv (server_shutdown srv w)))"

definition stop_server_thread :: "'r sensor_host \<Rightarrow> world \<Rightarrow> 'r sensor_host \<times> world" where
  "stop_server_thread s w =
     (case server_thread s of
        None \<Rightarrow> (s, w)
      | Some th \<Rightarrow>
          if is_alive w th then (s\<lparr>server_thread := None\<rparr>, thread_join th w) else (s, w))"

definition remove_temp_dir :: "'r sensor_host \<Rightarrow> world \<Rightarrow> 'r sensor_host \<times> world" where
  "remove_temp_dir s w =
     (case temp_dir s of
        None \<Rightarrow> (s, w)
      | Some d \<Rightarrow>
          if path_exists w d then (s\<lparr>temp_dir := None\<rparr>, rmtree d w) else (s, w))"

definition stop_server :: "'r sensor_host \<Rightarrow> world \<Rightarrow> 'r sensor_host \<times> world" where
  "stop_server s w =
     (let (s1, w1) = stop_refresh_task s w;
          (s2, w2) = stop_http_server s1 w1;
          (s3, w3) = stop_server_thread s2 w2;
          (s4, w4) = remove_temp_dir s3 w3
      in (s4\<lparr>running := False\<rparr>, emit (Log Server_stopped) w4))"

text \<open>\<open>_setup_temp_directory\<close>; \<open>make_sensor_dirs\<close> is its loop over \<open>self.sensors\<close>.\<close>

fun make_sensor_dirs :: "path \<Rightarrow> 'r sensor list \<Rightarrow> world \<Rightarrow> (py_exception + unit) \<times> world" where
  "make_sensor_dirs d [] w = (Inr (), w)"
| "make_sensor_dirs d (x # xs) w =
     (case makedirs (path_join d (name x)) w of
        (Inl e, w') \<Rightarrow> (Inl e, w')
      | (Inr _, w') \<Rightarrow> make_sensor_dirs d xs w')"

definition setup_temp_directory ::
  "'r sensor_host \<Rightarrow> world \<Rightarrow> (py_exception + unit) \<times> 'r sensor_host \<times> world" where
  "setup_temp_directory s w =
     (let w1 = (case temp_dir s of None \<Rightarrow> w | Some d \<Rightarrow> rmtree d w) in
      case mkdtemp w1 of
        (Inl e, w2) \<Rightarrow> (Inl e, s, w2)
      | (Inr d, w2) \<Rightarrow>
          (let s1 = s\<lparr>temp_dir := Some d\<rparr> in
           case make_sensor_dirs d (sensors s1) w2 of
             (Inl e, w3) \<Rightarrow> (Inl e, s1, w3)
           | (Inr _, w3) \<Rightarrow> (Inr (), s1, emit (Log (Created_temp_directory d)) w3)))"

text \<open>\<open>_start_server\<close>: a failure to bind is logged and raised again.\<close>

definition start_server ::
  "'r sensor_host \<Rightarrow> world \<Rightarrow> (py_exception + unit) \<times> 'r sensor_host \<times> world" where
  "start_server s w =
     (case server s of
        Some _ \<Rightarrow> (Inr (), s, w)
      | None \<Rightarrow>
          (case http_server_new (port s) (temp_dir s) w of
             (Inl e, w1) \<Rightarrow>
               if is_Exception e then (Inl e, s, emit (Log (Server_start_failed e)) w1)
               else (Inl e, s, w1)
           | (Inr srv, w1) \<Rightarrow>
               (let s1 = s\<lparr>server := Some srv\<rparr>;
                    (th, w2) = thread_start w1;
                    s2 = s1\<lparr>server_thread := Some th\<rparr>
                in (Inr (), s2, emit (Log (Server_started (port s2))) w2))))"

definition start_refresh_task :: "'r sensor_host \<Rightarrow> world \<Rightarrow> 'r sensor_host \<times> world" where
  "start_refresh_task s w =
     (let w1 = (case refresh_task s of
                  None \<Rightarrow> w
                | Some t \<Rightarrow> if \<not> task_done w t then task_cancel t w else w);
          (t, w2) = create_task w1;
          s1 = s\<lparr>refresh_task := Some t\<rparr>
      in (s1, emit (Log (Refresh_task_started (refresh_interval s1))) w2))"

text \<open>The loop of \<open>reconfigure\<close> that looks the named sensors up in the dependencies.\<close>

fun resolve_sensors ::
  "'r dependencies \<Rightarrow> pb_value list \<Rightarrow> 'r sensor list \<Rightarrow> world \<Rightarrow> 'r sensor list \<times> world" where
  "resolve_sensors deps [] acc w = (acc, w)"
| "resolve_sensors deps (v # vs) acc w =
     (let sensor_name = string_value v;
          sensor_resource_name = get_resource_name sensor_name
      in case deps sensor_resource_name of
           Some x \<Rightarrow> resolve_sensors deps vs (acc @ [x]) w
         | None \<Rightarrow> resolve_sensors deps vs acc (emit (Log (Sensor_not_found sensor_name)) w))"

text \<open>
  \<open>reconfigure\<close> is the teardown followed by \<open>start_generation\<close>, which is the rest of
  its body: reading the configuration, looking up the sensors, and starting the
  directory, the server and the task. An exception leaves the function at once, with the
  fields as they are at that point. The call of the base class at the end does nothing.
\<close>

definition start_generation ::
  "fields \<Rightarrow> 'r dependencies \<Rightarrow> 'r sensor_host \<Rightarrow> world \<Rightarrow> (py_exception + unit) \<times> 'r sensor_host \<times> world" where
  "start_generation config deps s1 w1 =
     (let sensor_names = list_value (get_field config ''sensors'');
          s2 = s1\<lparr>port := py_int (number_value (get_field config ''port''))\<rparr>;
          s3 = s2\<lparr>refresh_interval :=
                  (if config ''refresh'' \<noteq> None
                   then (let r = number_value (get_field config ''refresh'') in if r \<le> 0 then 5 else r)
                   else 5)\<rparr>;
          (xs, w2) = resolve_sensors deps sensor_names [] w1;
          s4 = s3\<lparr>sensors := xs\<rparr>
      in case setup_temp_directory s4 w2 of
           (Inl e, s5, w5) \<Rightarrow> (Inl e, s5, w5)
         | (Inr _, s5, w5) \<Rightarrow>
             (case start_server s5 w5 of
                (Inl e, s6, w6) \<Rightarrow> (Inl e, s6, w6)
              | (Inr _, s6, w6) \<Rightarrow>
                  (let (s7, w7) = start_refresh_task s6 w6;
                       s8 = s7\<lparr>running := True\<rparr>
                   in (Inr (), s8, emit (Log (Configured (length (sensors s8)) (port s8))) w7))))"

definition reconfigure ::
  "fields \<Rightarrow> 'r dependencies \<Rightarrow> 'r sensor_host \<Rightarrow> world \<Rightarrow> (py_exception + unit) \<times> 'r sensor_host \<times> world" where
  "reconfigure config deps s w =
     (let (s1, w1) = stop_server s w in start_generation config deps s1 w1)"

section \<open>Commands\<close>

text \<open>
  A command is a mapping, given by its items in order. The replies are the four
  dictionaries \<open>do_command\<close> builds; \<open>path_str\<close> writes a path as a string.
\<close>

datatype reply =
    Status bool int "string list" rat string
  | Message string
  | Error string
  | Unknown_command "string list"

definition path_str :: "path \<Rightarrow> string" where
  "path_str p = concat (map (\<lambda>c. CHR ''/'' # c) p)"

definition do_command ::
  "('r \<Rightarrow> dump_result) \<Rightarrow> (string \<times> 'v) list \<Rightarrow> 'r sensor_host \<Rightarrow> world \<Rightarrow> (py_exception + reply) \<times> world" where
  "do_command json_dump command s w =
     (if ''status'' \<in> set (map fst command)
      then (Inr (Status (running s) (port s) (map name (sensors s)) (refresh_interval s)
                   (case temp_dir s of None \<Rightarrow> [] | Some d \<Rightarrow> path_str d)), w)
      else if ''refresh_now'' \<in> set (map fst command)
      then
        (if running s
         then (case update_all_sensor_readings json_dump s w of
                 (Inl e, w') \<Rightarrow> (Inl e, w')
               | (Inr _, w') \<Rightarrow> (Inr (Message ''Sensor readings refreshed''), w'))
         else (Inr (Error ''SensorHost not running''), w))
      else (Inr (Unknown_command (map fst command)), w))"

section \<open>The refresh loop\<close>

text \<open>
  \<open>asyncio.sleep\<close> awaited by task \<open>t\<close>: a task whose cancellation was requested gets
  \<open>CancelledError\<close> instead of sleeping.
\<close>

definition asyncio_sleep :: "nat \<Rightarrow> rat \<Rightarrow> world \<Rightarrow> (py_exception + unit) \<times> world" where
  "asyncio_sleep t delay w =
     (if t < length (w_tasks w) \<and> w_tasks w ! t = Cancelling then (Inl CancelledError, w)
      else (Inr (), emit (Sleep delay) w))"

text \<open>
  One turn of the \<open>while\<close> loop of \<open>_refresh_readings_loop\<close>, run by task \<open>t\<close>:
  \<open>True\<close> when the loop goes on, \<open>False\<close> when it is left.
\<close>

definition refresh_iteration ::
  "('r \<Rightarrow> dump_result) \<Rightarrow> nat \<Rightarrow> 'r sensor_host \<Rightarrow> world \<Rightarrow> bool \<times> world" where
  "refresh_iteration json_dump t s w =
     (if \<not> running s then (False, w)
      else
        (case asyncio_sleep t (refresh_interval s) w of
           (Inl e, w1) \<Rightarrow>
             if e = CancelledError then (False, w1)
             else (True, emit (Log (Refresh_loop_error e)) w1)
         | (Inr _, w1) \<Rightarrow>
             (case update_all_sensor_readings json_dump s w1 of
                (Inl e, w2) \<Rightarrow>
                  if e = CancelledError then (False, w2)
                  else (True, emit (Log (Refresh_loop_error e)) w2)
              | (Inr _, w2) \<Rightarrow> (True, w2))))"

text \<open>
  The loop may run forever, so it is run for at most \<open>n\<close> turns: the result says whether
  the coroutine has returned (its task is done then) and gives the environment reached.
\<close>

fun refresh_readings_loop ::
  "nat \<Rightarrow> ('r \<Rightarrow> dump_result) \<Rightarrow> nat \<Rightarrow> 'r sensor_host \<Rightarrow> world \<Rightarrow> bool \<times> world" where
  "refresh_readings_loop 0 json_dump t s w = (False, w)"
| "refresh_readings_loop (Suc n) json_dump t s w =
     (case refresh_iteration json_dump t s w of
        (False, w') \<Rightarrow> (True, w'\<lparr>w_tasks := (w_tasks w')[t := Done]\<rparr>)
      | (True, w') \<Rightarrow> refresh_readings_loop n json_dump t s w')"

section \<open>Notions used by the properties\<close>

text \<open>The paths \<open>_update_sensor_reading\<close> computes for a sensor under the root \<open>d\<close>.\<close>

definition sensor_dir :: "path \<Rightarrow> 'r sensor \<Rightarrow> path" where
  "sensor_dir d x = path_join d (name x)"

definition temp_file :: "path \<Rightarrow> 'r sensor \<Rightarrow> path" where
  "temp_file d x = path_join (sensor_dir d x) ''next.json''"

definition current_file :: "path \<Rightarrow> 'r sensor \<Rightarrow> path" where
  "current_file d x = path_join (sensor_dir d x) ''current.json''"

text \<open>An event that opens the file \<open>p\<close> for writing or writes into it.\<close>

fun writes_to :: "path \<Rightarrow> event \<Rightarrow> bool" where
  "writes_to p (Open_w q) = (q = p)"
| "writes_to p (Write q _) = (q = p)"
| "writes_to p _ = False"

text \<open>The kinds of events: those of a poll and those of a startup.\<close>

fun poll_event :: "event \<Rightarrow> bool" where
  "poll_event (Sleep _) = True"
| "poll_event (Get_readings _) = True"
| "poll_event (Open_w _) = True"
| "poll_event (Write _ _) = True"
| "poll_event (Replace _ _) = True"
| "poll_event _ = False"

fun startup_event :: "event \<Rightarrow> bool" where
  "startup_event (Log _) = True"
| "startup_event (Mkdir _) = True"
| "startup_event (Socket_bind _) = True"
| "startup_event (Thread_start _) = True"
| "startup_event (Create_task _) = True"
| "startup_event _ = False"

text \<open>The trace of \<open>w'\<close> is that of \<open>w\<close> followed by events that all satisfy \<open>P\<close>.\<close>

definition trace_extends :: "(event \<Rightarrow> bool) \<Rightarrow> world \<Rightarrow> world \<Rightarrow> bool" where
  "trace_extends P w w' \<longleftrightarrow> (\<exists>evs. w_trace w' = w_trace w @ evs \<and> list_all P evs)"

text \<open>The sensors named in the configuration that the dependencies hold, in order.\<close>

definition resolved :: "'r dependencies \<Rightarrow> pb_value list \<Rightarrow> 'r sensor list" where
  "resolved deps vs = List.map_filter (\<lambda>v. deps (get_resource_name (string_value v))) vs"

text \<open>What \<open>reconfigure\<close> reads from a configuration, and the fields it assigns from it.\<close>

definition configured_port :: "fields \<Rightarrow> int" where
  "configured_port config = py_int (number_value (get_field config ''port''))"

definition configured_interval :: "fields \<Rightarrow> rat" where
  "configured_interval config =
     (if config ''refresh'' \<noteq> None
      then (let r = number_value (get_field config ''refresh'') in if r \<le> 0 then 5 else r)
      else 5)"

definition configured_sensors :: "'r dependencies \<Rightarrow> fields \<Rightarrow> 'r sensor list" where
  "configured_sensors deps config = resolved deps (list_value (get_field config ''sensors''))"

definition configured :: "fields \<Rightarrow> 'r dependencies \<Rightarrow> 'r sensor_host \<Rightarrow> 'r sensor_host" where
  "configured config deps s =
     s\<lparr>port := configured_port config, refresh_interval := configured_interval config,
       sensors := configured_sensors deps config\<rparr>"

text \<open>
  A file system is well formed when every file and every directory but the root lies in
  a directory that exists.
\<close>

definition fs_wf :: "world \<Rightarrow> bool" where
  "fs_wf w \<longleftrightarrow>
     (\<forall>p. w_files w p \<noteq> None \<longrightarrow> p \<noteq> [] \<and> butlast p \<in> set (w_dirs w))
   \<and> (\<forall>d \<in> set (w_dirs w). d \<noteq> [] \<longrightarrow> butlast d \<in> set (w_dirs w))"

text \<open>A sequence of Configure calls, each a call of \<open>reconfigure\<close>, whatever it returns.\<close>

fun run_configures ::
  "(fields \<times> 'r dependencies) list \<Rightarrow> 'r sensor_host \<times> world \<Rightarrow> 'r sensor_host \<times> world" where
  "run_configures [] sw = sw"
| "run_configures (c # cs) sw =
     run_configures cs (snd (reconfigure (fst c) (snd c) (fst sw) (snd sw)))"

text \<open>
  The state of a host that holds nothing: no server, the task it may still refer to is
  done, the thread it may still refer to has ended, the directory it may still name does
  not exist, and \<open>running\<close> is false.
\<close>

definition torn_down :: "'r sensor_host \<Rightarrow> world \<Rightarrow> bool" where
  "torn_down s w \<longleftrightarrow>
     (case refresh_task s of None \<Rightarrow> True | Some t \<Rightarrow> task_done w t)
   \<and> server s = None
   \<and> (case server_thread s of None \<Rightarrow> True | Some th \<Rightarrow> \<not> is_alive w th)
   \<and> (case temp_dir s of None \<Rightarrow> True | Some d \<Rightarrow> \<not> path_exists w d)
   \<and> \<not> running s"

text \<open>Shutting down \<open>n\<close> times in a row; a shutdown is a call of \<open>_stop_server\<close>.\<close>

fun shutdowns :: "nat \<Rightarrow> 'r sensor_host \<Rightarrow> world \<Rightarrow> 'r sensor_host \<times> world" where
  "shutdowns 0 s w = (s, w)"
| "shutdowns (Suc n) s w = (case stop_server s w of (s', w') \<Rightarrow> shutdowns n s' w')"

section \<open>An example installation\<close>

text \<open>
  A machine on which \<open>/dev/shm\<close> exists and nothing else has happened, two sensors of
  which the second fails, and the state reached by configuring them on port 8090.
\<close>

definition boot_world :: world where
  "boot_world = \<lparr>w_dirs = [[], [''dev''], shm], w_files = Map.empty, w_bound = [], w_threads = [],
     w_tasks = [], w_rand = [''a1'', ''b2'', ''c3''], w_trace = []\<rparr>"

definition temp1 :: "string sensor" where
  "temp1 = \<lparr>name = ''temp1'', get_readings = Inr ''21.5''\<rparr>"

definition temp2 :: "string sensor" where
  "temp2 = \<lparr>name = ''temp2'', get_readings = Inl (Exception OtherError ''timeout'')\<rparr>"

definition example_deps :: "string dependencies" where
  "example_deps = [get_resource_name ''temp1'' \<mapsto> temp1, get_resource_name ''temp2'' \<mapsto> temp2]"

definition example_config :: "rat \<Rightarrow> fields" where
  "example_config p =
     [''sensors'' \<mapsto> ListValue [StringValue ''temp1'', StringValue ''temp2''],
      ''port'' \<mapsto> NumberValue p, ''refresh'' \<mapsto> NumberValue 1]"

definition example_dump :: "string \<Rightarrow> dump_result" where
  "example_dump r = Dumped (''{'' @ r @ ''}'')"

definition example_root :: path where
  "example_root = [''dev'', ''shm'', ''sensor_host_a1'']"

definition example_host :: "string sensor_host" where
  "example_host =
     \<lparr>sensors = [temp1, temp2], port = 8090, refresh_interval = 1,
      server = Some \<lparr>srv_port = 8090, srv_directory = Some example_root\<rparr>,
      server_thread = Some 0, refresh_task = Some 0, temp_dir = Some example_root, running = True\<rparr>"

definition example_world :: world where
  "example_world =
     \<lparr>w_dirs = [example_root @ [''temp2''], example_root @ [''temp1''], example_root, [], [''dev''], shm],
      w_files = Map.empty, w_bound = [8090], w_threads = [True], w_tasks = [Pending],
      w_rand = [''b2'', ''c3''],
      w_trace = [Log Server_stopped, Mkdir example_root, Mkdir (example_root @ [''temp1'']),
        Mkdir (example_root @ [''temp2'']), Log (Created_temp_directory example_root),
        Socket_bind 8090, Thread_start 0, Log (Server_started 8090), Create_task 0,
        Log (Refresh_task_started 1), Log (Configured 2 8090)]\<rparr>"

text \<open>
  The same installation once \<open>temp1\<close> has been published, and a serializer that raises
  after having written the opening brace.
\<close>

definition published_world :: world where
  "published_world =
     example_world\<lparr>w_files := [example_root @ [''temp1'', ''current.json''] \<mapsto> ''{21.5}'']\<rparr>"

definition broken_dump :: "string \<Rightarrow> dump_result" where
  "broken_dump r = Dump_raised ''{'' TypeError ''keys must be str, int, float, bool or None''"

text \<open>The configured host with the failing sensor polled first.\<close>

definition flaky_host :: "string sensor_host" where
  "flaky_host = example_host\<lparr>sensors := [temp2, temp1]\<rparr>"

text \<open>
  The machine with port 9090 taken by another process, and a second configuration: one
  sensor, port 9090, no refresh interval.
\<close>

definition busy_world :: world where
  "busy_world = boot_world\<lparr>w_bound := [9090]\<rparr>"

definition second_config :: fields where
  "second_config = [''sensors'' \<mapsto> ListValue [StringValue ''temp1''], ''port'' \<mapsto> NumberValue 9090]"

section \<open>Basic facts\<close>

lemma path_join_eq [simp]: "path_join a n = path_join b m \<longleftrightarrow> a = b \<and> n = m"
  by (simp add: path_join_def)

lemma path_join_not_Nil [simp]: "path_join a n \<noteq> []"
  by (simp add: path_join_def)

lemma butlast_path_join [simp]: "butlast (path_join a n) = a"
  by (simp add: path_join_def)

lemma emit_fields [simp]:
  "w_trace (emit e w) = w_trace w @ [e]"
  "w_files (emit e w) = w_files w"
  "w_dirs (emit e w) = w_dirs w"
  "w_bound (emit e w) = w_bound w"
  "w_threads (emit e w) = w_threads w"
  "w_tasks (emit e w) = w_tasks w"
  "w_rand (emit e w) = w_rand w"
  by (simp_all add: emit_def)

lemma example_configured:
  "reconfigure (example_config 8090) example_deps init boot_world = (Inr (), example_host, example_world)"
  by (simp add: reconfigure_def start_generation_def stop_server_def stop_refresh_task_def stop_http_server_def
      stop_server_thread_def remove_temp_dir_def init_def boot_world_def example_config_def
      example_deps_def get_field_def get_resource_name_def setup_temp_directory_def mkdtemp_def
      shm_def path_join_def path_exists_def makedirs_def emit_def start_server_def
      http_server_new_def thread_start_def start_refresh_task_def create_task_def py_int_def
      Let_def temp1_def temp2_def example_host_def example_world_def example_root_def)

section \<open>Publishing\<close>

lemma try_success:
  assumes "temp_dir s = Some d" and "get_readings x = Inr r" and "json_dump r = Dumped body"
    and "sensor_dir d x \<in> set (w_dirs w)"
    and "temp_file d x \<notin> set (w_dirs w)"
    and "current_file d x \<notin> set (w_dirs w)"
  shows "update_sensor_reading_try json_dump x s w =
    (Inr (), w\<lparr>w_files := ((w_files w)(temp_file d x := None))(current_file d x \<mapsto> body),
               w_trace := w_trace w @ [Get_readings (name x), Open_w (temp_file d x),
                  Write (temp_file d x) body, Replace (temp_file d x) (current_file d x)]\<rparr>)"
  using assms
  by (simp add: update_sensor_reading_try_def Let_def open_w_def write_text_def os_replace_def
      emit_def sensor_dir_def temp_file_def current_file_def)

lemma try_trace_grows:
  "length (w_trace w) \<le> length (w_trace (snd (update_sensor_reading_try json_dump x s w)))"
  unfolding update_sensor_reading_try_def Let_def open_w_def write_text_def os_replace_def
  by (simp split: sum.split option.split prod.split dump_result.split)

lemma try_events:
  "\<forall>ev \<in> set (new_events w (snd (update_sensor_reading_try json_dump x s w))).
     \<not> writes_to (path_join p ''current.json'') ev"
  unfolding new_events_def update_sensor_reading_try_def Let_def open_w_def write_text_def os_replace_def
  by (simp split: sum.split option.split prod.split dump_result.split)

lemma try_failure:
  "case update_sensor_reading_try json_dump x s w of
     (Inl e, w') \<Rightarrow>
        (\<forall>p. w_files w' (path_join p ''current.json'') = w_files w (path_join p ''current.json''))
        \<and> w_dirs w' = w_dirs w
        \<and> (\<forall>ev \<in> set (new_events w w'). \<forall>src dst. ev \<noteq> Replace src dst)
   | (Inr _, w') \<Rightarrow> True"
  unfolding new_events_def update_sensor_reading_try_def Let_def open_w_def write_text_def os_replace_def
  by (simp split: sum.split option.split prod.split dump_result.split)

text \<open>
  Claim C1. Publishing a snapshot of a source under the root \<open>d\<close>: when the fetch and the
  serialization succeed and the source's directory is there, the call returns normally
  and has done exactly this, in this order: fetched the readings, opened \<open>next.json\<close> in
  the source's directory for writing, written the serialized readings to it, and renamed
  it to \<open>current.json\<close> in the same directory, which afterwards holds the document while
  \<open>next.json\<close> is gone. Whatever the outcome, no event of the call opens the canonical
  file for writing or writes into it.
\<close>

theorem publish_writes_next_then_renames:
  assumes "temp_dir s = Some d"
  shows "(get_readings x = Inr r \<and> json_dump r = Dumped body \<and> sensor_dir d x \<in> set (w_dirs w)
            \<and> temp_file d x \<notin> set (w_dirs w) \<and> current_file d x \<notin> set (w_dirs w) \<longrightarrow>
          update_sensor_reading json_dump x s w =
            (Inr (), w\<lparr>w_files := ((w_files w)(temp_file d x := None))(current_file d x \<mapsto> body),
                       w_trace := w_trace w @ [Get_readings (name x), Open_w (temp_file d x),
                          Write (temp_file d x) body, Replace (temp_file d x) (current_file d x)]\<rparr>))
        \<and> (\<forall>ev \<in> set (new_events w (snd (update_sensor_reading json_dump x s w))).
              \<not> writes_to (current_file d x) ev)"
proof (intro conjI impI)
  assume "get_readings x = Inr r \<and> json_dump r = Dumped body \<and> sensor_dir d x \<in> set (w_dirs w)
            \<and> temp_file d x \<notin> set (w_dirs w) \<and> current_file d x \<notin> set (w_dirs w)"
  then show "update_sensor_reading json_dump x s w =
            (Inr (), w\<lparr>w_files := ((w_files w)(temp_file d x := None))(current_file d x \<mapsto> body),
                       w_trace := w_trace w @ [Get_readings (name x), Open_w (temp_file d x),
                          Write (temp_file d x) body, Replace (temp_file d x) (current_file d x)]\<rparr>)"
    using assms try_success[where s=s and d=d and x=x and r=r and json_dump=json_dump and w=w]
    by (simp add: update_sensor_reading_def)
next
  obtain res w' where t: "update_sensor_reading_try json_dump x s w = (res, w')"
    by (cases "update_sensor_reading_try json_dump x s w")
  have ev: "\<forall>ev \<in> set (new_events w w'). \<not> writes_to (current_file d x) ev"
    using try_events[where w=w and json_dump=json_dump and x=x and s=s and p="sensor_dir d x"] t
    by (simp add: current_file_def)
  have len: "length (w_trace w) \<le> length (w_trace w')"
    using try_trace_grows[where w=w and json_dump=json_dump and x=x and s=s] t by simp
  show "\<forall>ev \<in> set (new_events w (snd (update_sensor_reading json_dump x s w))).
          \<not> writes_to (current_file d x) ev"
    using ev len t by (cases res) (auto simp: update_sensor_reading_def new_events_def)
qed

theorem publish_writes_next_then_renames_witness:
  "temp_dir example_host = Some example_root
   \<and> update_sensor_reading example_dump temp1 example_host example_world =
       (Inr (), example_world\<lparr>w_files := [example_root @ [''temp1'', ''current.json''] \<mapsto> ''{21.5}''],
          w_trace := w_trace example_world @ [Get_readings ''temp1'',
             Open_w (example_root @ [''temp1'', ''next.json'']),
             Write (example_root @ [''temp1'', ''next.json'']) ''{21.5}'',
             Replace (example_root @ [''temp1'', ''next.json'']) (example_root @ [''temp1'', ''current.json''])]\<rparr>)
   \<and> list_all (\<lambda>ev. \<not> writes_to (example_root @ [''temp1'', ''current.json'']) ev)
         (new_events example_world
            (snd (update_sensor_reading example_dump temp1 example_host example_world)))"
proof -
  have h: "temp_dir example_host = Some example_root"
    by (simp add: example_host_def)
  have pre: "get_readings temp1 = Inr ''21.5'' \<and> example_dump ''21.5'' = Dumped ''{21.5}''
      \<and> sensor_dir example_root temp1 \<in> set (w_dirs example_world)
      \<and> temp_file example_root temp1 \<notin> set (w_dirs example_world)
      \<and> current_file example_root temp1 \<notin> set (w_dirs example_world)"
    by (simp add: temp1_def example_dump_def sensor_dir_def temp_file_def current_file_def
        path_join_def example_world_def example_root_def shm_def)
  have files: "((w_files example_world)(temp_file example_root temp1 := None))
      (current_file example_root temp1 \<mapsto> ''{21.5}'') = [example_root @ [''temp1'', ''current.json''] \<mapsto> ''{21.5}'']"
    by (simp add: example_world_def temp_file_def current_file_def sensor_dir_def path_join_def temp1_def)
  show ?thesis
    using h pre files
      publish_writes_next_then_renames[OF h, where x=temp1 and r="''21.5''" and json_dump=example_dump
        and body="''{21.5}''" and w=example_world]
    by (simp add: temp_file_def current_file_def sensor_dir_def path_join_def temp1_def list_all_iff)
qed

text \<open>
  Claim C2. When publishing a snapshot fails, whichever step raised (the fetch, the
  serialization, opening or writing the temporary file, the rename), every canonical file
  \<open>current.json\<close> holds what it held before, no directory was made or removed, and no
  rename took place.
\<close>

theorem failed_publish_keeps_current:
  assumes "update_sensor_reading json_dump x s w = (Inl e, w')"
  shows "(\<forall>p. w_files w' (path_join p ''current.json'') = w_files w (path_join p ''current.json''))
     \<and> w_dirs w' = w_dirs w
     \<and> (\<forall>ev \<in> set (new_events w w'). \<forall>src dst. ev \<noteq> Replace src dst)"
proof -
  obtain res w1 where t: "update_sensor_reading_try json_dump x s w = (res, w1)"
    by (cases "update_sensor_reading_try json_dump x s w")
  have len: "length (w_trace w) \<le> length (w_trace w1)"
    using try_trace_grows[where w=w and json_dump=json_dump and x=x and s=s] t by simp
  show ?thesis
    using assms t len try_failure[where json_dump=json_dump and x=x and s=s and w=w]
    by (cases res) (fastforce simp: update_sensor_reading_def new_events_def split: if_splits)+
qed

theorem failed_publish_keeps_current_witness:
  "fst (update_sensor_reading broken_dump temp1 example_host published_world) =
     Inl (Exception TypeError ''keys must be str, int, float, bool or None'')
   \<and> w_files (snd (update_sensor_reading broken_dump temp1 example_host published_world))
        (example_root @ [''temp1'', ''next.json'']) = Some ''{''
   \<and> w_files (snd (update_sensor_reading broken_dump temp1 example_host published_world))
        (example_root @ [''temp1'', ''current.json'']) = Some ''{21.5}''"
proof -
  have f: "fst (update_sensor_reading broken_dump temp1 example_host published_world) =
      Inl (Exception TypeError ''keys must be str, int, float, bool or None'')"
    by (simp add: update_sensor_reading_def update_sensor_reading_try_def temp1_def example_host_def
        published_world_def example_world_def example_root_def shm_def broken_dump_def open_w_def
        path_join_def write_text_def Let_def)
  have h: "update_sensor_reading broken_dump temp1 example_host published_world =
      (Inl (Exception TypeError ''keys must be str, int, float, bool or None''),
       snd (update_sensor_reading broken_dump temp1 example_host published_world))"
    by (simp add: prod_eq_iff f)
  have nxt: "w_files (snd (update_sensor_reading broken_dump temp1 example_host published_world))
        (example_root @ [''temp1'', ''next.json'']) = Some ''{''"
    by (simp add: update_sensor_reading_def update_sensor_reading_try_def temp1_def example_host_def
        published_world_def example_world_def example_root_def shm_def broken_dump_def open_w_def
        path_join_def write_text_def Let_def)
  have old: "w_files published_world (path_join (example_root @ [''temp1'']) ''current.json'') = Some ''{21.5}''"
    by (simp add: published_world_def path_join_def)
  have keep: "w_files (snd (update_sensor_reading broken_dump temp1 example_host published_world))
        (path_join (example_root @ [''temp1'']) ''current.json'') =
      w_files published_world (path_join (example_root @ [''temp1'']) ''current.json'')"
    using failed_publish_keeps_current[OF h] by blast
  show ?thesis
    using f nxt old keep by (simp add: path_join_def)
qed

section \<open>Teardown\<close>

lemma running_update_same: "\<not> running s \<Longrightarrow> s\<lparr>running := False\<rparr> = s"
  by (cases s) simp

subsection \<open>The four steps of the teardown\<close>

lemma list_update_False_same: "(i < length xs \<longrightarrow> \<not> xs ! i) \<Longrightarrow> xs[i := False] = xs"
  by (cases "i < length xs") (simp_all add: list_update_same_conv list_update_beyond)

lemma stop_refresh_task_host [simp]:
  "sensors (fst (stop_refresh_task s w)) = sensors s"
  "port (fst (stop_refresh_task s w)) = port s"
  "refresh_interval (fst (stop_refresh_task s w)) = refresh_interval s"
  "server (fst (stop_refresh_task s w)) = server s"
  "server_thread (fst (stop_refresh_task s w)) = server_thread s"
  "temp_dir (fst (stop_refresh_task s w)) = temp_dir s"
  "running (fst (stop_refresh_task s w)) = running s"
  "refresh_task (fst (stop_refresh_task s w)) =
     (case refresh_task s of None \<Rightarrow> None | Some t \<Rightarrow> if task_done w t then Some t else None)"
  by (simp_all add: stop_refresh_task_def split: option.split)

lemma stop_refresh_task_world [simp]:
  "w_dirs (snd (stop_refresh_task s w)) = w_dirs w"
  "w_files (snd (stop_refresh_task s w)) = w_files w"
  "w_bound (snd (stop_refresh_task s w)) = w_bound w"
  "w_threads (snd (stop_refresh_task s w)) = w_threads w"
  "w_rand (snd (stop_refresh_task s w)) = w_rand w"
  "w_tasks (snd (stop_refresh_task s w)) =
     (case refresh_task s of None \<Rightarrow> w_tasks w
      | Some t \<Rightarrow> if t < length (w_tasks w) \<and> w_tasks w ! t = Pending
                  then (w_tasks w)[t := Cancelling] else w_tasks w)"
  "w_trace (snd (stop_refresh_task s w)) =
     w_trace w @ (case refresh_task s of None \<Rightarrow> []
                  | Some t \<Rightarrow> if task_done w t then [] else [Task_cancel t])"
  by (simp_all add: stop_refresh_task_def task_cancel_def task_done_def split: option.split)

lemma stop_http_server_host [simp]:
  "sensors (fst (stop_http_server s w)) = sensors s"
  "port (fst (stop_http_server s w)) = port s"
  "refresh_interval (fst (stop_http_server s w)) = refresh_interval s"
  "server (fst (stop_http_server s w)) = None"
  "server_thread (fst (stop_http_server s w)) = server_thread s"
  "temp_dir (fst (stop_http_server s w)) = temp_dir s"
  "running (fst (stop_http_server s w)) = running s"
  "refresh_task (fst (stop_http_server s w)) = refresh_task s"
  by (simp_all add: stop_http_server_def split: option.split)

lemma stop_http_server_world [simp]:
  "w_dirs (snd (stop_http_server s w)) = w_dirs w"
  "w_files (snd (stop_http_server s w)) = w_files w"
  "w_bound (snd (stop_http_server s w)) =
     (case server s of None \<Rightarrow> w_bound w | Some srv \<Rightarrow> remove1 (srv_port srv) (w_bound w))"
  "w_threads (snd (stop_http_server s w)) = w_threads w"
  "w_rand (snd (stop_http_server s w)) = w_rand w"
  "w_tasks (snd (stop_http_server s w)) = w_tasks w"
  "w_trace (snd (stop_http_server s w)) =
     w_trace w @ (case server s of None \<Rightarrow> []
                  | Some srv \<Rightarrow> [Server_shutdown (srv_port srv), Server_close (srv_port srv)])"
  by (simp_all add: stop_http_server_def server_close_def server_shutdown_def split: option.split)

lemma stop_server_thread_host [simp]:
  "sensors (fst (stop_server_thread s w)) = sensors s"
  "port (fst (stop_server_thread s w)) = port s"
  "refresh_interval (fst (stop_server_thread s w)) = refresh_interval s"
  "server (fst (stop_server_thread s w)) = server s"
  "server_thread (fst (stop_server_thread s w)) =
     (case server_thread s of None \<Rightarrow> None | Some th \<Rightarrow> if is_alive w th then None else Some th)"
  "temp_dir (fst (stop_server_thread s w)) = temp_dir s"
  "running (fst (stop_server_thread s w)) = running s"
  "refresh_task (fst (stop_server_thread s w)) = refresh_task s"
  by (simp_all add: stop_server_thread_def split: option.split)

lemma stop_server_thread_world [simp]:
  "w_dirs (snd (stop_server_thread s w)) = w_dirs w"
  "w_files (snd (stop_server_thread s w)) = w_files w"
  "w_bound (snd (stop_server_thread s w)) = w_bound w"
  "w_threads (snd (stop_server_thread s w)) =
     (case server_thread s of None \<Rightarrow> w_threads w | Some th \<Rightarrow> (w_threads w)[th := False])"
  "w_rand (snd (stop_server_thread s w)) = w_rand w"
  "w_tasks (snd (stop_server_thread s w)) = w_tasks w"
  "w_trace (snd (stop_server_thread s w)) =
     w_trace w @ (case server_thread s of None \<Rightarrow> []
                  | Some th \<Rightarrow> if is_alive w th then [Thread_join th] else [])"
  by (simp_all add: stop_server_thread_def thread_join_def is_alive_def list_update_False_same
      split: option.split)

lemma remove_temp_dir_host [simp]:
  "sensors (fst (remove_temp_dir s w)) = sensors s"
  "port (fst (remove_temp_dir s w)) = port s"
  "refresh_interval (fst (remove_temp_dir s w)) = refresh_interval s"
  "server (fst (remove_temp_dir s w)) = server s"
  "server_thread (fst (remove_temp_dir s w)) = server_thread s"
  "temp_dir (fst (remove_temp_dir s w)) =
     (case temp_dir s of None \<Rightarrow> None | Some d \<Rightarrow> if path_exists w d then None else Some d)"
  "running (fst (remove_temp_dir s w)) = running s"
  "refresh_task (fst (remove_temp_dir s w)) = refresh_task s"
  by (simp_all add: remove_temp_dir_def split: option.split)

lemma remove_temp_dir_world [simp]:
  "w_dirs (snd (remove_temp_dir s w)) =
     (case temp_dir s of None \<Rightarrow> w_dirs w
      | Some d \<Rightarrow> if d \<in> set (w_dirs w) then filter (\<lambda>q. \<not> prefix d q) (w_dirs w) else w_dirs w)"
  "w_files (snd (remove_temp_dir s w)) =
     (case temp_dir s of None \<Rightarrow> w_files w
      | Some d \<Rightarrow> if d \<in> set (w_dirs w) then (\<lambda>q. if prefix d q then None else w_files w q)
                  else w_files w)"
  "w_bound (snd (remove_temp_dir s w)) = w_bound w"
  "w_threads (snd (remove_temp_dir s w)) = w_threads w"
  "w_rand (snd (remove_temp_dir s w)) = w_rand w"
  "w_tasks (snd (remove_temp_dir s w)) = w_tasks w"
  "w_trace (snd (remove_temp_dir s w)) =
     w_trace w @ (case temp_dir s of None \<Rightarrow> []
                  | Some d \<Rightarrow> if path_exists w d then [Rmtree d] else [])"
  by (simp_all add: remove_temp_dir_def rmtree_def path_exists_def split: option.split)


lemma stop_refresh_task_idle:
  "(case refresh_task s of None \<Rightarrow> True | Some t \<Rightarrow> task_done w t) \<Longrightarrow> stop_refresh_task s w = (s, w)"
  by (cases "refresh_task s") (simp_all add: stop_refresh_task_def)

lemma stop_http_server_idle: "server s = None \<Longrightarrow> stop_http_server s w = (s, w)"
  by (simp add: stop_http_server_def)

lemma stop_server_thread_idle:
  "(case server_thread s of None \<Rightarrow> True | Some th \<Rightarrow> \<not> is_alive w th) \<Longrightarrow> stop_server_thread s w = (s, w)"
  by (cases "server_thread s") (simp_all add: stop_server_thread_def)

lemma remove_temp_dir_idle:
  "(case temp_dir s of None \<Rightarrow> True | Some d \<Rightarrow> \<not> path_exists w d) \<Longrightarrow> remove_temp_dir s w = (s, w)"
  by (cases "temp_dir s") (simp_all add: remove_temp_dir_def)

lemma stop_server_torn_down:
  "torn_down s w \<Longrightarrow> stop_server s w = (s, emit (Log Server_stopped) w)"
  by (simp add: torn_down_def stop_server_def stop_refresh_task_idle stop_http_server_idle
      stop_server_thread_idle remove_temp_dir_idle running_update_same)

lemma stop_server_host:
  "sensors (fst (stop_server s w)) = sensors s"
  "port (fst (stop_server s w)) = port s"
  "refresh_interval (fst (stop_server s w)) = refresh_interval s"
  "server (fst (stop_server s w)) = None"
  "running (fst (stop_server s w)) = False"
  "refresh_task (fst (stop_server s w)) =
     (case refresh_task s of None \<Rightarrow> None | Some t \<Rightarrow> if task_done w t then Some t else None)"
  "server_thread (fst (stop_server s w)) =
     (case server_thread s of None \<Rightarrow> None | Some th \<Rightarrow> if is_alive w th then None else Some th)"
  "temp_dir (fst (stop_server s w)) =
     (case temp_dir s of None \<Rightarrow> None | Some d \<Rightarrow> if path_exists w d then None else Some d)"
  by (simp_all add: stop_server_def split_beta is_alive_def path_exists_def cong: if_cong option.case_cong)

lemma stop_server_world:
  "w_tasks (snd (stop_server s w)) =
     (case refresh_task s of None \<Rightarrow> w_tasks w
      | Some t \<Rightarrow> if t < length (w_tasks w) \<and> w_tasks w ! t = Pending
                  then (w_tasks w)[t := Cancelling] else w_tasks w)"
  "w_bound (snd (stop_server s w)) =
     (case server s of None \<Rightarrow> w_bound w | Some srv \<Rightarrow> remove1 (srv_port srv) (w_bound w))"
  "w_threads (snd (stop_server s w)) =
     (case server_thread s of None \<Rightarrow> w_threads w | Some th \<Rightarrow> (w_threads w)[th := False])"
  "w_dirs (snd (stop_server s w)) =
     (case temp_dir s of None \<Rightarrow> w_dirs w
      | Some d \<Rightarrow> if d \<in> set (w_dirs w) then filter (\<lambda>q. \<not> prefix d q) (w_dirs w) else w_dirs w)"
  "w_files (snd (stop_server s w)) =
     (case temp_dir s of None \<Rightarrow> w_files w
      | Some d \<Rightarrow> if d \<in> set (w_dirs w) then (\<lambda>q. if prefix d q then None else w_files w q) else w_files w)"
  "w_rand (snd (stop_server s w)) = w_rand w"
  "w_trace (snd (stop_server s w)) =
     w_trace w
     @ (case refresh_task s of None \<Rightarrow> [] | Some t \<Rightarrow> if task_done w t then [] else [Task_cancel t])
     @ (case server s of None \<Rightarrow> []
        | Some srv \<Rightarrow> [Server_shutdown (srv_port srv), Server_close (srv_port srv)])
     @ (case server_thread s of None \<Rightarrow> [] | Some th \<Rightarrow> if is_alive w th then [Thread_join th] else [])
     @ (case temp_dir s of None \<Rightarrow> [] | Some d \<Rightarrow> if path_exists w d then [Rmtree d] else [])
     @ [Log Server_stopped]"
  by (simp_all add: stop_server_def split_beta is_alive_def path_exists_def cong: if_cong option.case_cong)

lemma torn_down_stop_server: "torn_down (fst (stop_server s w)) (snd (stop_server s w))"
  by (simp add: torn_down_def stop_server_host stop_server_world task_done_def is_alive_def
      path_exists_def nth_list_update split: option.split)

lemma torn_down_emit [simp]: "torn_down s (emit e w) = torn_down s w"
  by (simp add: torn_down_def task_done_def is_alive_def path_exists_def cong: option.case_cong)

lemma shutdowns_torn_down:
  "torn_down s w \<Longrightarrow>
   shutdowns n s w = (s, w\<lparr>w_trace := w_trace w @ replicate n (Log Server_stopped)\<rparr>)"
proof (induction n arbitrary: w)
  case 0
  then show ?case by simp
next
  case (Suc n)
  have "shutdowns (Suc n) s w = shutdowns n s (emit (Log Server_stopped) w)"
    using Suc.prems by (simp add: stop_server_torn_down)
  also have "\<dots> = (s, (emit (Log Server_stopped) w)
      \<lparr>w_trace := w_trace (emit (Log Server_stopped) w) @ replicate n (Log Server_stopped)\<rparr>)"
    using Suc.prems by (intro Suc.IH) simp
  also have "\<dots> = (s, w\<lparr>w_trace := w_trace w @ replicate (Suc n) (Log Server_stopped)\<rparr>)"
    by (simp add: emit_def replicate_app_Cons_same)
  finally show ?case .
qed



section \<open>The poll pass\<close>

lemma new_events_append:
  assumes "prefix (w_trace a) (w_trace b)" and "prefix (w_trace b) (w_trace c)"
  shows "new_events a c = new_events a b @ new_events b c"
  using assms by (auto simp: prefix_def new_events_def)

lemma new_events_emit [simp]:
  "prefix (w_trace a) (w_trace b) \<Longrightarrow> new_events a (emit e b) = new_events a b @ [e]"
  by (auto simp: prefix_def new_events_def)

lemma prefix_emit [simp]: "prefix (w_trace a) (w_trace b) \<Longrightarrow> prefix (w_trace a) (w_trace (emit e b))"
  by (simp add: prefix_prefix)

lemma is_Exception_iff: "is_Exception e \<longleftrightarrow> e \<noteq> CancelledError"
  by (cases e) simp_all

lemmas publish_defs = update_sensor_reading_try_def Let_def open_w_def write_text_def os_replace_def

lemma try_frame [simp]:
  "w_dirs (snd (update_sensor_reading_try json_dump x s w)) = w_dirs w"
  "w_bound (snd (update_sensor_reading_try json_dump x s w)) = w_bound w"
  "w_threads (snd (update_sensor_reading_try json_dump x s w)) = w_threads w"
  "w_tasks (snd (update_sensor_reading_try json_dump x s w)) = w_tasks w"
  "w_rand (snd (update_sensor_reading_try json_dump x s w)) = w_rand w"
  unfolding publish_defs
  by (simp_all split: sum.split option.split prod.split dump_result.split)

lemma try_trace:
  "\<exists>evs. w_trace (snd (update_sensor_reading_try json_dump x s w)) = w_trace w @ Get_readings (name x) # evs"
  unfolding publish_defs
  by (simp split: sum.split option.split prod.split dump_result.split)

lemma try_error:
  "fst (update_sensor_reading_try json_dump x s w) = Inl e \<Longrightarrow> get_readings x \<noteq> Inl CancelledError \<Longrightarrow> is_Exception e"
  unfolding publish_defs
  by (auto simp: is_Exception_iff split: sum.splits option.splits prod.splits dump_result.splits if_splits)

lemma try_files:
  "w_files (snd (update_sensor_reading_try json_dump x s w)) p =
     (case temp_dir s of None \<Rightarrow> w_files w p
      | Some d \<Rightarrow> if p = temp_file d x \<or> p = current_file d x
                  then w_files (snd (update_sensor_reading_try json_dump x s w)) p else w_files w p)"
  unfolding publish_defs temp_file_def current_file_def sensor_dir_def
  by (simp split: sum.split option.split prod.split dump_result.split)


lemma update_frame [simp]:
  "w_dirs (snd (update_sensor_reading json_dump x s w)) = w_dirs w"
  "w_bound (snd (update_sensor_reading json_dump x s w)) = w_bound w"
  "w_threads (snd (update_sensor_reading json_dump x s w)) = w_threads w"
  "w_tasks (snd (update_sensor_reading json_dump x s w)) = w_tasks w"
  "w_rand (snd (update_sensor_reading json_dump x s w)) = w_rand w"
  by (simp_all add: update_sensor_reading_def split_beta split: sum.split)

lemma update_trace:
  "\<exists>evs. w_trace (snd (update_sensor_reading json_dump x s w)) = w_trace w @ Get_readings (name x) # evs"
  using try_trace[of json_dump x s w]
  by (auto simp: update_sensor_reading_def split_beta split: sum.split)

lemma update_prefix [simp]:
  "prefix (w_trace w) (w_trace (snd (update_sensor_reading json_dump x s w)))"
  using update_trace[of json_dump x s w] by (auto simp: prefix_def)

lemma update_fetches:
  "Get_readings (name x) \<in> set (new_events w (snd (update_sensor_reading json_dump x s w)))"
  using update_trace[of json_dump x s w] by (auto simp: new_events_def)

lemma update_error:
  "fst (update_sensor_reading json_dump x s w) = Inl e \<Longrightarrow> get_readings x \<noteq> Inl CancelledError \<Longrightarrow> is_Exception e"
  using try_error[of json_dump x s w]
  by (auto simp: update_sensor_reading_def split_beta split: sum.splits if_splits)

lemma update_files_other:
  assumes "temp_dir s = Some d" and "p \<noteq> temp_file d x" and "p \<noteq> current_file d x"
  shows "w_files (snd (update_sensor_reading json_dump x s w)) p = w_files w p"
  using assms try_files[of json_dump x s w p]
  by (simp add: update_sensor_reading_def split_beta split: sum.split)

lemma update_fetch_failed:
  assumes "get_readings x = Inl e"
  shows "fst (update_sensor_reading json_dump x s w) = Inl e"
  using assms by (simp add: update_sensor_reading_def update_sensor_reading_try_def Let_def)

lemma update_success:
  assumes "temp_dir s = Some d" and "get_readings x = Inr r" and "json_dump r = Dumped body"
    and "sensor_dir d x \<in> set (w_dirs w)"
    and "temp_file d x \<notin> set (w_dirs w)"
    and "current_file d x \<notin> set (w_dirs w)"
  shows "update_sensor_reading json_dump x s w =
    (Inr (), w\<lparr>w_files := ((w_files w)(temp_file d x := None))(current_file d x \<mapsto> body),
               w_trace := w_trace w @ [Get_readings (name x), Open_w (temp_file d x),
                  Write (temp_file d x) body, Replace (temp_file d x) (current_file d x)]\<rparr>)"
  using assms try_success[where s=s and d=d and x=x and r=r and json_dump=json_dump and w=w]
  by (simp add: update_sensor_reading_def)

subsection \<open>The pass\<close>

lemma update_all_frame_conj:
  "w_dirs (snd (update_all json_dump xs s w)) = w_dirs w
   \<and> w_bound (snd (update_all json_dump xs s w)) = w_bound w
   \<and> w_threads (snd (update_all json_dump xs s w)) = w_threads w
   \<and> w_tasks (snd (update_all json_dump xs s w)) = w_tasks w
   \<and> w_rand (snd (update_all json_dump xs s w)) = w_rand w"
proof (induction xs arbitrary: w)
  case Nil
  show ?case by simp
next
  case (Cons x xs)
  obtain r w1 where u: "update_sensor_reading json_dump x s w = (r, w1)"
    by (cases "update_sensor_reading json_dump x s w")
  have f: "w_dirs w1 = w_dirs w" "w_bound w1 = w_bound w" "w_threads w1 = w_threads w"
    "w_tasks w1 = w_tasks w" "w_rand w1 = w_rand w"
    using update_frame[of json_dump x s w] u by simp_all
  show ?case
  proof (cases r)
    case (Inl e)
    show ?thesis
      using Cons.IH[of "emit (Log (Update_failed (name x) e)) w1"] f
      by (simp add: u Inl)
  next
    case (Inr v)
    show ?thesis using Cons.IH[of w1] f by (simp add: u Inr)
  qed
qed

lemmas update_all_frame [simp] =
  update_all_frame_conj[THEN conjunct1]
  update_all_frame_conj[THEN conjunct2, THEN conjunct1]
  update_all_frame_conj[THEN conjunct2, THEN conjunct2, THEN conjunct1]
  update_all_frame_conj[THEN conjunct2, THEN conjunct2, THEN conjunct2, THEN conjunct1]
  update_all_frame_conj[THEN conjunct2, THEN conjunct2, THEN conjunct2, THEN conjunct2]

lemma update_all_prefix [simp]:
  "prefix (w_trace w) (w_trace (snd (update_all json_dump xs s w)))"
proof (induction xs arbitrary: w)
  case Nil
  then show ?case by simp
next
  case (Cons x xs)
  obtain r w1 where u: "update_sensor_reading json_dump x s w = (r, w1)"
    by (cases "update_sensor_reading json_dump x s w")
  have p: "prefix (w_trace w) (w_trace w1)"
    using update_prefix[of w json_dump x s] u by simp
  show ?case
  proof (cases r)
    case (Inl e)
    show ?thesis
      using u Inl p Cons.IH[of "emit (Log (Update_failed (name x) e)) w1"]
      by (auto intro: prefix_order.trans[OF prefix_emit[OF p]])
  next
    case (Inr v)
    show ?thesis using u Inr p Cons.IH[of w1] by (auto intro: prefix_order.trans)
  qed
qed

lemma update_all_no_raise:
  "\<forall>y \<in> set xs. get_readings y \<noteq> Inl CancelledError \<Longrightarrow> fst (update_all json_dump xs s w) = Inr ()"
proof (induction xs arbitrary: w)
  case Nil
  then show ?case by simp
next
  case (Cons x xs)
  obtain r w1 where u: "update_sensor_reading json_dump x s w = (r, w1)"
    by (cases "update_sensor_reading json_dump x s w")
  show ?case
  proof (cases r)
    case (Inl e)
    have "is_Exception e"
      using update_error[of json_dump x s w e] u Inl Cons.prems by simp
    then show ?thesis using u Inl Cons by simp
  next
    case (Inr v)
    then show ?thesis using u Cons by simp
  qed
qed

lemma update_all_Cons_events:
  assumes "update_sensor_reading json_dump y s w = (r, w1)"
    and "r = Inr () \<or> (\<exists>e. r = Inl e \<and> is_Exception e)"
  shows "\<exists>w2. prefix (w_trace w1) (w_trace w2) \<and> w_dirs w2 = w_dirs w \<and>
           (\<forall>p. w_files w2 p = w_files w1 p) \<and>
           (\<forall>e. r = Inl e \<longrightarrow> Log (Update_failed (name y) e) \<in> set (new_events w w2)) \<and>
           update_all json_dump (y # ys) s w = update_all json_dump ys s w2"
proof -
  have p: "prefix (w_trace w) (w_trace w1)"
    using update_prefix[of w json_dump y s] assms(1) by simp
  have d: "w_dirs w1 = w_dirs w"
    using update_frame(1)[of json_dump y s w] assms(1) by simp
  show ?thesis
  proof (cases r)
    case (Inl e)
    then have "is_Exception e" using assms(2) by auto
    then show ?thesis
      using assms(1) Inl p d
      by (intro exI[of _ "emit (Log (Update_failed (name y) e)) w1"]) (simp add: prefix_prefix)
  next
    case (Inr v)
    then show ?thesis
      using assms(1) p d by (intro exI[of _ w1]) simp
  qed
qed

lemma update_result_cases:
  assumes "get_readings y \<noteq> Inl CancelledError"
    and "update_sensor_reading json_dump y s w = (r, w1)"
  shows "r = Inr () \<or> (\<exists>e. r = Inl e \<and> is_Exception e)"
  using update_error[of json_dump y s w] assms by (cases r) auto

lemma update_all_fetches:
  assumes "x \<in> set xs" and "\<forall>y \<in> set xs. get_readings y \<noteq> Inl CancelledError"
  shows "Get_readings (name x) \<in> set (new_events w (snd (update_all json_dump xs s w)))"
  using assms
proof (induction xs arbitrary: w)
  case Nil
  then show ?case by simp
next
  case (Cons y ys)
  obtain r w1 where u: "update_sensor_reading json_dump y s w = (r, w1)"
    by (cases "update_sensor_reading json_dump y s w")
  have rc: "r = Inr () \<or> (\<exists>e. r = Inl e \<and> is_Exception e)"
    using update_result_cases[OF _ u] Cons.prems by simp
  obtain w2 where w2: "prefix (w_trace w1) (w_trace w2)"
      "update_all json_dump (y # ys) s w = update_all json_dump ys s w2"
    using update_all_Cons_events[OF u rc, of ys] by blast
  have p1: "prefix (w_trace w) (w_trace w1)"
    using update_prefix[of w json_dump y s] u by simp
  have p2: "prefix (w_trace w) (w_trace w2)"
    using p1 w2(1) by (rule prefix_order.trans)
  have split: "new_events w (snd (update_all json_dump ys s w2)) =
      new_events w w1 @ new_events w1 w2 @ new_events w2 (snd (update_all json_dump ys s w2))"
    using new_events_append[OF p2 update_all_prefix, of json_dump ys s] new_events_append[OF p1 w2(1)]
    by simp
  show ?case
  proof (cases "x = y")
    case True
    have "Get_readings (name y) \<in> set (new_events w w1)"
      using update_fetches[of y w json_dump s] u by simp
    then show ?thesis using True w2(2) split by simp
  next
    case False
    then have "Get_readings (name x) \<in> set (new_events w2 (snd (update_all json_dump ys s w2)))"
      using Cons by simp
    then show ?thesis using w2(2) split by simp
  qed
qed

lemma update_all_logs_failure:
  assumes "x \<in> set xs" and "get_readings x = Inl e"
    and "\<forall>y \<in> set xs. get_readings y \<noteq> Inl CancelledError"
  shows "Log (Update_failed (name x) e) \<in> set (new_events w (snd (update_all json_dump xs s w)))"
  using assms
proof (induction xs arbitrary: w)
  case Nil
  then show ?case by simp
next
  case (Cons y ys)
  obtain r w1 where u: "update_sensor_reading json_dump y s w = (r, w1)"
    by (cases "update_sensor_reading json_dump y s w")
  have rc: "r = Inr () \<or> (\<exists>e. r = Inl e \<and> is_Exception e)"
    using update_result_cases[OF _ u] Cons.prems by simp
  obtain w2 where w2: "prefix (w_trace w1) (w_trace w2)"
      "\<forall>e. r = Inl e \<longrightarrow> Log (Update_failed (name y) e) \<in> set (new_events w w2)"
      "update_all json_dump (y # ys) s w = update_all json_dump ys s w2"
    using update_all_Cons_events[OF u rc, of ys] by blast
  have p1: "prefix (w_trace w) (w_trace w1)"
    using update_prefix[of w json_dump y s] u by simp
  have p2: "prefix (w_trace w) (w_trace w2)"
    using p1 w2(1) by (rule prefix_order.trans)
  have split: "new_events w (snd (update_all json_dump ys s w2)) =
      new_events w w2 @ new_events w2 (snd (update_all json_dump ys s w2))"
    using new_events_append[OF p2 update_all_prefix, of json_dump ys s] by simp
  show ?case
  proof (cases "x = y")
    case True
    have "r = Inl e"
      using update_fetch_failed[of y e json_dump s w] u True Cons.prems(2) by simp
    then show ?thesis using True w2(2,3) split by simp
  next
    case False
    then have "Log (Update_failed (name x) e) \<in> set (new_events w2 (snd (update_all json_dump ys s w2)))"
      using Cons by simp
    then show ?thesis using w2(3) split by simp
  qed
qed

lemma update_all_publishes:
  assumes "temp_dir s = Some d" and "get_readings x = Inr r" and "json_dump r = Dumped body"
    and "sensor_dir d x \<in> set (w_dirs w)"
    and "temp_file d x \<notin> set (w_dirs w)"
    and "current_file d x \<notin> set (w_dirs w)"
    and "\<forall>y \<in> set xs. name y = name x \<longrightarrow> y = x"
    and "\<forall>y \<in> set xs. get_readings y \<noteq> Inl CancelledError"
    and "x \<in> set xs \<or> w_files w (current_file d x) = Some body"
  shows "w_files (snd (update_all json_dump xs s w)) (current_file d x) = Some body"
  using assms(4-)
proof (induction xs arbitrary: w)
  case Nil
  then show ?case by simp
next
  case (Cons y ys)
  obtain res w1 where u: "update_sensor_reading json_dump y s w = (res, w1)"
    by (cases "update_sensor_reading json_dump y s w")
  have rc: "res = Inr () \<or> (\<exists>e. res = Inl e \<and> is_Exception e)"
    using update_result_cases[OF _ u] Cons.prems by simp
  obtain w2 where w2: "w_dirs w2 = w_dirs w" "\<forall>p. w_files w2 p = w_files w1 p"
      "update_all json_dump (y # ys) s w = update_all json_dump ys s w2"
    using update_all_Cons_events[OF u rc, of ys] by blast
  have "w_files w1 (current_file d x) = Some body \<or> (x \<in> set ys \<and> x \<noteq> y)"
  proof (cases "name y = name x")
    case True
    then have "y = x" using Cons.prems by simp
    then show ?thesis
      using update_success[where s=s and d=d and x=x and r=r and json_dump=json_dump and w=w and body=body]
        assms(1-3) Cons.prems(1-3) u by auto
  next
    case False
    have "w_files w1 (current_file d x) = w_files w (current_file d x)"
      using update_files_other[OF assms(1), of "current_file d x" y json_dump w] u False
      by (simp add: current_file_def temp_file_def sensor_dir_def)
    then show ?thesis using Cons.prems False by auto
  qed
  then have "x \<in> set ys \<or> w_files w2 (current_file d x) = Some body"
    using w2(2) by auto
  then show ?case
    using Cons.IH[of w2] Cons.prems w2 by simp
qed

lemma cancelled_fetch_ends_pass:
  assumes "get_readings x = Inl CancelledError"
  shows "fst (update_all json_dump (x # xs) s w) = Inl CancelledError"
  using assms
  by (simp add: update_sensor_reading_def update_sensor_reading_try_def Let_def)

lemma try_success_renames:
  "case update_sensor_reading_try json_dump x s w of
     (Inl e, w1) \<Rightarrow> True
   | (Inr _, w1) \<Rightarrow>
       (\<exists>d. temp_dir s = Some d \<and> Replace (temp_file d x) (current_file d x) \<in> set (new_events w w1))"
  unfolding new_events_def update_sensor_reading_try_def Let_def open_w_def write_text_def
    os_replace_def temp_file_def current_file_def sensor_dir_def
  by (simp split: sum.split option.split prod.split dump_result.split)

lemma update_success_renames:
  assumes "update_sensor_reading json_dump x s w = (Inr u, w1)"
  shows "\<exists>d. temp_dir s = Some d \<and> Replace (temp_file d x) (current_file d x) \<in> set (new_events w w1)"
proof -
  obtain r w0 where t: "update_sensor_reading_try json_dump x s w = (r, w0)"
    by (cases "update_sensor_reading_try json_dump x s w")
  have "r = Inr u" "w1 = w0"
    using assms t by (cases r; simp add: update_sensor_reading_def split: if_splits)+
  then show ?thesis
    using try_success_renames[where json_dump=json_dump and x=x and s=s and w=w] t by simp
qed

lemma update_all_accounts:
  assumes "x \<in> set xs" and "\<forall>y \<in> set xs. get_readings y \<noteq> Inl CancelledError"
  shows "(\<exists>e. Log (Update_failed (name x) e) \<in> set (new_events w (snd (update_all json_dump xs s w))))
    \<or> (\<exists>d. temp_dir s = Some d \<and>
          Replace (temp_file d x) (current_file d x) \<in> set (new_events w (snd (update_all json_dump xs s w))))"
  using assms
proof (induction xs arbitrary: w)
  case Nil
  then show ?case by simp
next
  case (Cons y ys)
  obtain r w1 where u: "update_sensor_reading json_dump y s w = (r, w1)"
    by (cases "update_sensor_reading json_dump y s w")
  have rc: "r = Inr () \<or> (\<exists>e. r = Inl e \<and> is_Exception e)"
    using update_result_cases[OF _ u] Cons.prems by simp
  obtain w2 where w2: "prefix (w_trace w1) (w_trace w2)"
      "\<forall>e. r = Inl e \<longrightarrow> Log (Update_failed (name y) e) \<in> set (new_events w w2)"
      "update_all json_dump (y # ys) s w = update_all json_dump ys s w2"
    using update_all_Cons_events[OF u rc, of ys] by blast
  have p1: "prefix (w_trace w) (w_trace w1)"
    using update_prefix[of w json_dump y s] u by simp
  have p2: "prefix (w_trace w) (w_trace w2)"
    using p1 w2(1) by (rule prefix_order.trans)
  have split: "new_events w (snd (update_all json_dump ys s w2)) =
      new_events w w1 @ new_events w1 w2 @ new_events w2 (snd (update_all json_dump ys s w2))"
    using new_events_append[OF p2 update_all_prefix, of json_dump ys s] new_events_append[OF p1 w2(1)]
    by simp
  show ?case
  proof (cases "x = y")
    case True
    show ?thesis
    proof (cases r)
      case (Inl e)
      then have "Log (Update_failed (name y) e) \<in> set (new_events w w2)" using w2(2) by simp
      then have "Log (Update_failed (name y) e) \<in> set (new_events w w1 @ new_events w1 w2)"
        using new_events_append[OF p1 w2(1)] by simp
      then show ?thesis using True w2(3) split by auto
    next
      case (Inr v)
      then obtain d where "temp_dir s = Some d"
          "Replace (temp_file d y) (current_file d y) \<in> set (new_events w w1)"
        using update_success_renames[of json_dump y s w v w1] u by auto
      then show ?thesis using True w2(3) split by auto
    qed
  next
    case False
    then have "(\<exists>e. Log (Update_failed (name x) e) \<in> set (new_events w2 (snd (update_all json_dump ys s w2))))
      \<or> (\<exists>d. temp_dir s = Some d \<and>
          Replace (temp_file d x) (current_file d x) \<in> set (new_events w2 (snd (update_all json_dump ys s w2))))"
      using Cons by simp
    then show ?thesis using w2(3) split by auto
  qed
qed



section \<open>Validation\<close>

lemma validate_config_rejects:
  assumes "config ''sensors'' = None \<or> list_value (get_field config ''sensors'') = []
     \<or> config ''port'' = None \<or> number_value (get_field config ''port'') \<le> 0
     \<or> number_value (get_field config ''port'') > 65535"
  shows "\<exists>m. validate_config config = Inl (Exception ValueError m)"
  using assms by (auto simp: validate_config_def Let_def)

lemma validate_config_integral_port:
  assumes "config ''sensors'' \<noteq> None" and "list_value (get_field config ''sensors'') \<noteq> []"
    and "config ''port'' = Some (NumberValue (of_int p))"
  shows "(\<exists>deps. validate_config config = Inr deps) \<longleftrightarrow> 1 \<le> p \<and> p \<le> 65535"
proof -
  have "(of_int p :: rat) \<le> 0 \<longleftrightarrow> p \<le> 0" and "(of_int p :: rat) > 65535 \<longleftrightarrow> p > 65535"
    by simp_all
  then show ?thesis
    using assms by (auto simp: validate_config_def Let_def get_field_def)
qed

lemma py_int_half: "py_int (1 / 2) = 0"
  by (simp add: py_int_def floor_eq_iff)

text \<open>
  Claim C6. Validation rejects a missing or empty sensor list and every port that is at
  most 0 or above 65535 (the two lemmas above), and being a class method it does so before
  anything is touched. It does not reject the ports strictly between 0 and 1, which are
  outside the range its own message names: the port is a protobuf number, and for 0.5 both
  comparisons of the source are false. Validation returns the dependencies, and
  \<open>reconfigure\<close> then truncates the port to 0 and starts the server on it.
\<close>

theorem validate_config_accepts_fractional_port:
  "validate_config (example_config (1 / 2)) = Inr ([''temp1'', ''temp2''], [])
   \<and> fst (reconfigure (example_config (1 / 2)) example_deps init boot_world) = Inr ()
   \<and> port (fst (snd (reconfigure (example_config (1 / 2)) example_deps init boot_world))) = 0
   \<and> w_bound (snd (snd (reconfigure (example_config (1 / 2)) example_deps init boot_world))) = [0]"
  by (simp add: validate_config_def reconfigure_def start_generation_def stop_server_def stop_refresh_task_def
      stop_http_server_def stop_server_thread_def remove_temp_dir_def init_def boot_world_def
      example_config_def example_deps_def get_field_def get_resource_name_def
      setup_temp_directory_def mkdtemp_def shm_def path_join_def path_exists_def makedirs_def
      emit_def start_server_def http_server_new_def thread_start_def start_refresh_task_def
      create_task_def py_int_half Let_def temp1_def temp2_def)

section \<open>Commands\<close>

text \<open>
  Claim C9, as stated, fails: \<open>do_command\<close> looks for the key \<open>status\<close> first, so a
  command that holds both \<open>status\<close> and \<open>refresh_now\<close> is answered with the status,
  neither with the "not running" error when nothing runs nor with a poll and its
  confirmation when a generation is live.
\<close>

theorem refresh_now_with_status_counterexample:
  "''refresh_now'' \<in> set (map fst [(''status'', ()), (''refresh_now'', ())])
   \<and> \<not> running (init :: string sensor_host)
   \<and> do_command example_dump [(''status'', ()), (''refresh_now'', ())] init boot_world =
       (Inr (Status False 8080 [] 5 []), boot_world)
   \<and> fst (do_command example_dump [(''status'', ()), (''refresh_now'', ())] init boot_world) \<noteq>
       Inr (Error ''SensorHost not running'')
   \<and> running example_host
   \<and> do_command example_dump [(''status'', ()), (''refresh_now'', ())] example_host example_world =
       (Inr (Status True 8090 [''temp1'', ''temp2''] 1 ''/dev/shm/sensor_host_a1''), example_world)"
  by (simp add: do_command_def init_def example_host_def temp1_def temp2_def path_str_def
      example_root_def)

text \<open>
  Claim C9, amended. For every command that holds the key \<open>refresh_now\<close> and not the key
  \<open>status\<close>: while \<open>running\<close> is false the handler returns the "not running" error,
  raises nothing and leaves the environment untouched, so no poll takes place; while
  \<open>running\<close> is true it runs exactly one pass over all sensors and, the pass not being
  cancelled, returns the confirmation message.
\<close>

theorem refresh_now_without_status:
  assumes "''refresh_now'' \<in> set (map fst command)" and "''status'' \<notin> set (map fst command)"
  shows "(\<not> running s \<longrightarrow>
            do_command json_dump command s w = (Inr (Error ''SensorHost not running''), w))
       \<and> (running s \<and> (\<forall>y \<in> set (sensors s). get_readings y \<noteq> Inl CancelledError) \<longrightarrow>
            do_command json_dump command s w =
              (Inr (Message ''Sensor readings refreshed''), snd (update_all_sensor_readings json_dump s w)))"
proof (intro conjI impI)
  assume "\<not> running s"
  then show "do_command json_dump command s w = (Inr (Error ''SensorHost not running''), w)"
    using assms by (simp add: do_command_def)
next
  assume r: "running s \<and> (\<forall>y \<in> set (sensors s). get_readings y \<noteq> Inl CancelledError)"
  then have "fst (update_all_sensor_readings json_dump s w) = Inr ()"
    by (simp add: update_all_sensor_readings_def update_all_no_raise)
  then show "do_command json_dump command s w =
      (Inr (Message ''Sensor readings refreshed''), snd (update_all_sensor_readings json_dump s w))"
    using assms r by (simp add: do_command_def split_beta)
qed

theorem refresh_now_without_status_witness:
  "''refresh_now'' \<in> set (map fst [(''refresh_now'', True)])
   \<and> ''status'' \<notin> set (map fst [(''refresh_now'', True)])
   \<and> do_command example_dump [(''refresh_now'', True)] (init :: string sensor_host) boot_world =
       (Inr (Error ''SensorHost not running''), boot_world)
   \<and> do_command example_dump [(''refresh_now'', True)] flaky_host example_world =
       (Inr (Message ''Sensor readings refreshed''),
        snd (update_all_sensor_readings example_dump flaky_host example_world))
   \<and> w_files (snd (do_command example_dump [(''refresh_now'', True)] flaky_host example_world))
       (example_root @ [''temp1'', ''current.json'']) = Some ''{21.5}''"
proof -
  have k: "''refresh_now'' \<in> set (map fst [(''refresh_now'', True)])"
    and n: "''status'' \<notin> set (map fst [(''refresh_now'', True)])"
    by simp_all
  have idle: "\<not> running (init :: string sensor_host)"
    by (simp add: init_def)
  have live: "running flaky_host \<and> (\<forall>y \<in> set (sensors flaky_host). get_readings y \<noteq> Inl CancelledError)"
    by (simp add: flaky_host_def example_host_def temp1_def temp2_def)
  have a: "do_command example_dump [(''refresh_now'', True)] (init :: string sensor_host) boot_world =
       (Inr (Error ''SensorHost not running''), boot_world)"
    using refresh_now_without_status[OF k n, of init example_dump boot_world] idle by blast
  have b: "do_command example_dump [(''refresh_now'', True)] flaky_host example_world =
       (Inr (Message ''Sensor readings refreshed''),
        snd (update_all_sensor_readings example_dump flaky_host example_world))"
    using refresh_now_without_status[OF k n, of flaky_host example_dump example_world] live by blast
  have c: "w_files (snd (update_all_sensor_readings example_dump flaky_host example_world))
       (example_root @ [''temp1'', ''current.json'']) = Some ''{21.5}''"
    by (simp add: update_all_sensor_readings_def update_sensor_reading_def
        update_sensor_reading_try_def flaky_host_def example_host_def temp1_def temp2_def
        example_world_def example_root_def shm_def example_dump_def open_w_def path_join_def
        write_text_def os_replace_def Let_def emit_def)
  show ?thesis
    using k n a b c by simp
qed

section \<open>Starting a generation\<close>

lemma reconfigure_eq:
  "reconfigure config deps s w =
     start_generation config deps (fst (stop_server s w)) (snd (stop_server s w))"
  by (simp add: reconfigure_def split_beta)

subsection \<open>Trace extension\<close>

lemma trace_extends_refl [simp]: "trace_extends P w w"
  by (simp add: trace_extends_def)

lemma trace_extends_trans:
  "trace_extends P a b \<Longrightarrow> trace_extends P b c \<Longrightarrow> trace_extends P a c"
  by (auto simp: trace_extends_def)

lemma trace_extends_emit: "P e \<Longrightarrow> trace_extends P a b \<Longrightarrow> trace_extends P a (emit e b)"
  by (auto simp: trace_extends_def)

subsection \<open>Resolving the sensors\<close>

lemma resolve_sensors_fst: "fst (resolve_sensors deps vs acc w) = acc @ resolved deps vs"
  by (induction vs arbitrary: acc w) (simp_all add: resolved_def List.map_filter_simps Let_def split: option.split)

lemma resolve_sensors_world:
  "w_dirs (snd (resolve_sensors deps vs acc w)) = w_dirs w
   \<and> w_files (snd (resolve_sensors deps vs acc w)) = w_files w
   \<and> w_bound (snd (resolve_sensors deps vs acc w)) = w_bound w
   \<and> w_threads (snd (resolve_sensors deps vs acc w)) = w_threads w
   \<and> w_tasks (snd (resolve_sensors deps vs acc w)) = w_tasks w
   \<and> w_rand (snd (resolve_sensors deps vs acc w)) = w_rand w
   \<and> trace_extends startup_event w (snd (resolve_sensors deps vs acc w))"
proof (induction vs arbitrary: acc w)
  case Nil
  show ?case by simp
next
  case (Cons v vs)
  show ?case
  proof (cases "deps (get_resource_name (string_value v))")
    case None
    have "trace_extends startup_event w (emit (Log (Sensor_not_found (string_value v))) w)"
      by (simp add: trace_extends_emit)
    then show ?thesis
      using Cons.IH[of acc "emit (Log (Sensor_not_found (string_value v))) w"] None
      by (auto simp: Let_def intro: trace_extends_trans)
  next
    case (Some x)
    then show ?thesis using Cons.IH[of "acc @ [x]" w] by (simp add: Let_def)
  qed
qed

subsection \<open>Making directories\<close>

lemma mkdtemp_names_Inl:
  "fst (mkdtemp_names rs w) = Inl e \<Longrightarrow> is_Exception e \<and> snd (mkdtemp_names rs w) = w\<lparr>w_rand := []\<rparr>"
  by (induction rs) (auto simp: Let_def split: if_splits)

lemma mkdtemp_names_Inr:
  "fst (mkdtemp_names rs w) = Inr p \<Longrightarrow>
     \<not> path_exists w p \<and> length p = 3 \<and>
     snd (mkdtemp_names rs w) =
       emit (Mkdir p) (w\<lparr>w_dirs := p # w_dirs w, w_rand := w_rand (snd (mkdtemp_names rs w))\<rparr>)"
  by (induction rs) (auto simp: Let_def path_join_def shm_def emit_def split: if_splits)

lemma mkdtemp_Inl:
  "fst (mkdtemp w) = Inl e \<Longrightarrow>
     is_Exception e \<and> (snd (mkdtemp w) = w \<or> snd (mkdtemp w) = w\<lparr>w_rand := []\<rparr>)"
  using mkdtemp_names_Inl[of "w_rand w" w e]
  by (auto simp: mkdtemp_def split: if_splits)

lemma mkdtemp_Inr:
  "fst (mkdtemp w) = Inr p \<Longrightarrow>
     \<not> path_exists w p \<and> length p = 3 \<and>
     snd (mkdtemp w) = emit (Mkdir p) (w\<lparr>w_dirs := p # w_dirs w, w_rand := w_rand (snd (mkdtemp w))\<rparr>)"
  using mkdtemp_names_Inr[of "w_rand w" w p]
  by (auto simp: mkdtemp_def split: if_splits)

lemma mkdir_all_world:
  "w_files (snd (mkdir_all qs w)) = w_files w
   \<and> w_bound (snd (mkdir_all qs w)) = w_bound w
   \<and> w_threads (snd (mkdir_all qs w)) = w_threads w
   \<and> w_tasks (snd (mkdir_all qs w)) = w_tasks w
   \<and> w_rand (snd (mkdir_all qs w)) = w_rand w
   \<and> set (w_dirs w) \<subseteq> set (w_dirs (snd (mkdir_all qs w)))
   \<and> trace_extends startup_event w (snd (mkdir_all qs w))"
proof (induction qs arbitrary: w)
  case Nil
  show ?case by simp
next
  case (Cons q qs)
  have e: "trace_extends startup_event w (emit (Mkdir q) (w\<lparr>w_dirs := q # w_dirs w\<rparr>))"
    by (simp add: trace_extends_def)
  show ?case
    using Cons.IH[of w] Cons.IH[of "emit (Mkdir q) (w\<lparr>w_dirs := q # w_dirs w\<rparr>)"] e
    by (auto intro: trace_extends_trans)
qed

lemma mkdir_all_error: "fst (mkdir_all qs w) = Inl e \<Longrightarrow> is_Exception e"
  by (induction qs arbitrary: w) (auto split: if_splits)

lemma make_sensor_dirs_world:
  "w_files (snd (make_sensor_dirs d xs w)) = w_files w
   \<and> w_bound (snd (make_sensor_dirs d xs w)) = w_bound w
   \<and> w_threads (snd (make_sensor_dirs d xs w)) = w_threads w
   \<and> w_tasks (snd (make_sensor_dirs d xs w)) = w_tasks w
   \<and> w_rand (snd (make_sensor_dirs d xs w)) = w_rand w
   \<and> set (w_dirs w) \<subseteq> set (w_dirs (snd (make_sensor_dirs d xs w)))
   \<and> trace_extends startup_event w (snd (make_sensor_dirs d xs w))"
proof (induction xs arbitrary: w)
  case Nil
  show ?case by simp
next
  case (Cons x xs)
  obtain r w1 where m: "makedirs (path_join d (name x)) w = (r, w1)"
    by (cases "makedirs (path_join d (name x)) w")
  have f: "w_files w1 = w_files w \<and> w_bound w1 = w_bound w \<and> w_threads w1 = w_threads w
      \<and> w_tasks w1 = w_tasks w \<and> w_rand w1 = w_rand w \<and> set (w_dirs w) \<subseteq> set (w_dirs w1)
      \<and> trace_extends startup_event w w1"
    using mkdir_all_world[of "prefixes (path_join d (name x))" w] m by (simp add: makedirs_def)
  show ?case
  proof (cases r)
    case (Inl e)
    then show ?thesis using m f by simp
  next
    case (Inr u)
    then show ?thesis
      using m f Cons.IH[of w1] by (auto intro: trace_extends_trans)
  qed
qed

lemma make_sensor_dirs_error: "fst (make_sensor_dirs d xs w) = Inl e \<Longrightarrow> is_Exception e"
proof (induction xs arbitrary: w)
  case Nil
  then show ?case by simp
next
  case (Cons x xs)
  obtain r w1 where m: "makedirs (path_join d (name x)) w = (r, w1)"
    by (cases "makedirs (path_join d (name x)) w")
  show ?case
  proof (cases r)
    case (Inl e')
    then show ?thesis
      using m Cons.prems mkdir_all_error[of "prefixes (path_join d (name x))" w e']
      by (simp add: makedirs_def)
  next
    case (Inr u)
    then show ?thesis using m Cons by simp
  qed
qed

subsection \<open>Setting up the directory\<close>

lemma rmtree_absent: "\<not> path_exists w d \<Longrightarrow> rmtree d w = emit (Rmtree d) w"
  by (simp add: rmtree_def path_exists_def)

lemma path_exists_emit [simp]: "path_exists (emit e w) p = path_exists w p"
  by (simp add: path_exists_def)

lemma setup_temp_directory_failure:
  assumes "case temp_dir s of None \<Rightarrow> True | Some d \<Rightarrow> \<not> path_exists w d"
    and "setup_temp_directory s w = (Inl e, s', w')"
  shows "is_Exception e" and "w_files w' = w_files w" and "w_bound w' = w_bound w"
    and "w_threads w' = w_threads w" and "w_tasks w' = w_tasks w"
    and "set (w_dirs w) \<subseteq> set (w_dirs w')"
    and "(s' = s \<and> w_dirs w' = w_dirs w) \<or> (\<exists>T. s' = s\<lparr>temp_dir := Some T\<rparr> \<and> T \<in> set (w_dirs w'))"
proof -
  define w1 where "w1 = (case temp_dir s of None \<Rightarrow> w | Some d \<Rightarrow> rmtree d w)"
  have w1: "w_files w1 = w_files w" "w_bound w1 = w_bound w" "w_threads w1 = w_threads w"
    "w_tasks w1 = w_tasks w" "w_dirs w1 = w_dirs w"
    using assms(1) by (auto simp: w1_def rmtree_absent split: option.splits)
  obtain r w2 where m: "mkdtemp w1 = (r, w2)" by (cases "mkdtemp w1")
  have all: "is_Exception e \<and> w_files w' = w_files w \<and> w_bound w' = w_bound w
    \<and> w_threads w' = w_threads w \<and> w_tasks w' = w_tasks w
    \<and> set (w_dirs w) \<subseteq> set (w_dirs w')
    \<and> ((s' = s \<and> w_dirs w' = w_dirs w) \<or> (\<exists>T. s' = s\<lparr>temp_dir := Some T\<rparr> \<and> T \<in> set (w_dirs w')))"
  proof (cases r)
    case (Inl e1)
    have "e = e1" "s' = s" "w' = w2"
      using assms(2) m Inl by (simp_all add: setup_temp_directory_def w1_def[symmetric])
    then show ?thesis
      using mkdtemp_Inl[of w1 e1] m Inl w1 by auto
  next
    case (Inr T)
    obtain r3 w3 where d: "make_sensor_dirs T (sensors s) w2 = (r3, w3)"
      by (cases "make_sensor_dirs T (sensors s) w2")
    have r3: "r3 = Inl e" and s': "s' = s\<lparr>temp_dir := Some T\<rparr>" and w': "w' = w3"
      using assms(2) m Inr d
      by (cases r3; simp add: setup_temp_directory_def w1_def[symmetric])+
    have w2: "w2 = emit (Mkdir T) (w1\<lparr>w_dirs := T # w_dirs w1, w_rand := w_rand w2\<rparr>)"
      using mkdtemp_Inr[of w1 T] m Inr by simp
    have f2: "w_files w2 = w_files w1" "w_bound w2 = w_bound w1" "w_threads w2 = w_threads w1"
      "w_tasks w2 = w_tasks w1" "w_dirs w2 = T # w_dirs w1"
      by (subst w2, simp)+
    show ?thesis
      using make_sensor_dirs_world[of T "sensors s" w2] make_sensor_dirs_error[of T "sensors s" w2 e]
        d r3 s' w' f2 w1
      by auto
  qed
  show "is_Exception e" and "w_files w' = w_files w" and "w_bound w' = w_bound w"
    and "w_threads w' = w_threads w" and "w_tasks w' = w_tasks w"
    and "set (w_dirs w) \<subseteq> set (w_dirs w')"
    and "(s' = s \<and> w_dirs w' = w_dirs w) \<or> (\<exists>T. s' = s\<lparr>temp_dir := Some T\<rparr> \<and> T \<in> set (w_dirs w'))"
    using all by blast+
qed

lemma setup_temp_directory_success:
  assumes "case temp_dir s of None \<Rightarrow> True | Some d \<Rightarrow> \<not> path_exists w d"
    and "setup_temp_directory s w = (Inr u, s', w')"
  obtains T evs where "s' = s\<lparr>temp_dir := Some T\<rparr>" and "\<not> path_exists w T" and "length T = 3"
    and "T \<in> set (w_dirs w')" and "set (w_dirs w) \<subseteq> set (w_dirs w')"
    and "w_files w' = w_files w" and "w_bound w' = w_bound w"
    and "w_threads w' = w_threads w" and "w_tasks w' = w_tasks w"
    and "w_trace w' = w_trace w @ (case temp_dir s of None \<Rightarrow> [] | Some d \<Rightarrow> [Rmtree d]) @ Mkdir T # evs"
    and "list_all startup_event evs"
proof -
  define w1 where "w1 = (case temp_dir s of None \<Rightarrow> w | Some d \<Rightarrow> rmtree d w)"
  have w1: "w_files w1 = w_files w" "w_bound w1 = w_bound w" "w_threads w1 = w_threads w"
    "w_tasks w1 = w_tasks w" "w_dirs w1 = w_dirs w"
    "w_trace w1 = w_trace w @ (case temp_dir s of None \<Rightarrow> [] | Some d \<Rightarrow> [Rmtree d])"
    using assms(1) by (auto simp: w1_def rmtree_absent split: option.splits)
  obtain r w2 where m: "mkdtemp w1 = (r, w2)" by (cases "mkdtemp w1")
  obtain T where T: "r = Inr T"
    using assms(2) m by (cases r) (simp_all add: setup_temp_directory_def w1_def[symmetric])
  obtain r3 w3 where d: "make_sensor_dirs T (sensors s) w2 = (r3, w3)"
    by (cases "make_sensor_dirs T (sensors s) w2")
  have s': "s' = s\<lparr>temp_dir := Some T\<rparr>" and w': "w' = emit (Log (Created_temp_directory T)) w3"
    using assms(2) m T d
    by (cases r3; simp add: setup_temp_directory_def w1_def[symmetric])+
  have fresh: "\<not> path_exists w1 T" "length T = 3"
    and w2: "w2 = emit (Mkdir T) (w1\<lparr>w_dirs := T # w_dirs w1, w_rand := w_rand w2\<rparr>)"
    using mkdtemp_Inr[of w1 T] m T by simp_all
  have f2: "w_files w2 = w_files w1" "w_bound w2 = w_bound w1" "w_threads w2 = w_threads w1"
    "w_tasks w2 = w_tasks w1" "w_dirs w2 = T # w_dirs w1" "w_trace w2 = w_trace w1 @ [Mkdir T]"
    by (subst w2, simp)+
  have f3: "w_files w3 = w_files w2" "w_bound w3 = w_bound w2" "w_threads w3 = w_threads w2"
    "w_tasks w3 = w_tasks w2" "set (w_dirs w2) \<subseteq> set (w_dirs w3)"
    "trace_extends startup_event w2 w3"
    using make_sensor_dirs_world[of T "sensors s" w2] d by simp_all
  obtain evs where evs: "w_trace w3 = w_trace w2 @ evs" "list_all startup_event evs"
    using f3(6) by (auto simp: trace_extends_def)
  show thesis
  proof (rule that[of T "evs @ [Log (Created_temp_directory T)]"])
    show "s' = s\<lparr>temp_dir := Some T\<rparr>" by (rule s')
    show "\<not> path_exists w T" using fresh(1) w1 by (simp add: path_exists_def)
    show "length T = 3" by (rule fresh(2))
    show "T \<in> set (w_dirs w')" using w' f3(5) f2(5) by auto
    show "set (w_dirs w) \<subseteq> set (w_dirs w')" using w' f3(5) f2(5) w1(5) by auto
    show "w_files w' = w_files w" using w' f3 f2 w1 by simp
    show "w_bound w' = w_bound w" using w' f3 f2 w1 by simp
    show "w_threads w' = w_threads w" using w' f3 f2 w1 by simp
    show "w_tasks w' = w_tasks w" using w' f3 f2 w1 by simp
    show "w_trace w' = w_trace w @ (case temp_dir s of None \<Rightarrow> [] | Some d \<Rightarrow> [Rmtree d])
        @ Mkdir T # evs @ [Log (Created_temp_directory T)]"
      using w' evs(1) f2(6) w1(6) by simp
    show "list_all startup_event (evs @ [Log (Created_temp_directory T)])"
      using evs(2) by simp
  qed
qed

subsection \<open>Starting the server and the task\<close>

lemma http_server_new_Inl:
  "fst (http_server_new p d w) = Inl e \<Longrightarrow> is_Exception e \<and> snd (http_server_new p d w) = w"
  by (auto simp: http_server_new_def split: if_splits)

lemma http_server_new_Inr:
  "fst (http_server_new p d w) = Inr srv \<Longrightarrow>
     srv = \<lparr>srv_port = p, srv_directory = d\<rparr> \<and> (p \<noteq> 0 \<longrightarrow> p \<notin> set (w_bound w)) \<and>
     snd (http_server_new p d w) = emit (Socket_bind p) (w\<lparr>w_bound := p # w_bound w\<rparr>)"
  by (auto simp: http_server_new_def split: if_splits)

lemma start_server_failure:
  assumes "server s = None" and "start_server s w = (Inl e, s', w')"
  shows "s' = s \<and> is_Exception e \<and> w' = emit (Log (Server_start_failed e)) w"
proof -
  obtain r w1 where h: "http_server_new (port s) (temp_dir s) w = (r, w1)"
    by (cases "http_server_new (port s) (temp_dir s) w")
  show ?thesis
  proof (cases r)
    case (Inl e1)
    then show ?thesis
      using assms h http_server_new_Inl[of "port s" "temp_dir s" w e1]
      by (auto simp: start_server_def split: if_splits)
  next
    case (Inr srv)
    then show ?thesis
      using assms h by (simp add: start_server_def thread_start_def Let_def)
  qed
qed

lemma start_server_success:
  assumes "server s = None" and "start_server s w = (Inr u, s', w')"
  shows "s' = s\<lparr>server := Some \<lparr>srv_port = port s, srv_directory = temp_dir s\<rparr>,
                 server_thread := Some (length (w_threads w))\<rparr>
       \<and> (port s \<noteq> 0 \<longrightarrow> port s \<notin> set (w_bound w))
       \<and> w' = w\<lparr>w_bound := port s # w_bound w, w_threads := w_threads w @ [True],
                 w_trace := w_trace w @ [Socket_bind (port s), Thread_start (length (w_threads w)),
                    Log (Server_started (port s))]\<rparr>"
proof -
  obtain r w1 where h: "http_server_new (port s) (temp_dir s) w = (r, w1)"
    by (cases "http_server_new (port s) (temp_dir s) w")
  show ?thesis
  proof (cases r)
    case (Inl e1)
    then show ?thesis
      using assms h by (auto simp: start_server_def split: if_splits)
  next
    case (Inr srv)
    then show ?thesis
      using assms h http_server_new_Inr[of "port s" "temp_dir s" w srv]
      by (simp add: start_server_def thread_start_def Let_def emit_def)
  qed
qed

lemma start_refresh_task_idle:
  assumes "case refresh_task s of None \<Rightarrow> True | Some t \<Rightarrow> task_done w t"
  shows "start_refresh_task s w =
     (s\<lparr>refresh_task := Some (length (w_tasks w))\<rparr>,
      w\<lparr>w_tasks := w_tasks w @ [Pending],
        w_trace := w_trace w @ [Create_task (length (w_tasks w)),
           Log (Refresh_task_started (refresh_interval s))]\<rparr>)"
  using assms
  by (cases "refresh_task s") (simp_all add: start_refresh_task_def create_task_def Let_def emit_def)

subsection \<open>The startup as a whole\<close>

lemma start_generation_unfold:
  "start_generation config deps s1 w1 =
     (case setup_temp_directory (configured config deps s1)
             (snd (resolve_sensors deps (list_value (get_field config ''sensors'')) [] w1)) of
        (Inl e, s5, w5) \<Rightarrow> (Inl e, s5, w5)
      | (Inr _, s5, w5) \<Rightarrow>
          (case start_server s5 w5 of
             (Inl e, s6, w6) \<Rightarrow> (Inl e, s6, w6)
           | (Inr _, s6, w6) \<Rightarrow>
               (let (s7, w7) = start_refresh_task s6 w6;
                    s8 = s7\<lparr>running := True\<rparr>
                in (Inr (), s8, emit (Log (Configured (length (sensors s8)) (port s8))) w7))))"
proof -
  obtain xs w2 where r: "resolve_sensors deps (list_value (get_field config ''sensors'')) [] w1 = (xs, w2)"
    by (cases "resolve_sensors deps (list_value (get_field config ''sensors'')) [] w1")
  have xs: "xs = resolved deps (list_value (get_field config ''sensors''))"
    using resolve_sensors_fst[of deps "list_value (get_field config ''sensors'')" "[]" w1] r by simp
  show ?thesis
    unfolding start_generation_def configured_def configured_port_def configured_interval_def
      configured_sensors_def
    by (simp add: r xs[symmetric] Let_def)
qed

lemma torn_down_fields:
  assumes "torn_down s w"
  shows "server s = None" and "\<not> running s"
    and "case refresh_task s of None \<Rightarrow> True | Some t \<Rightarrow> task_done w t"
    and "case server_thread s of None \<Rightarrow> True | Some th \<Rightarrow> \<not> is_alive w th"
    and "case temp_dir s of None \<Rightarrow> True | Some d \<Rightarrow> \<not> path_exists w d"
  using assms by (simp_all add: torn_down_def)

lemma start_generation_failure:
  assumes td: "torn_down s1 w1"
    and sg: "start_generation config deps s1 w1 = (Inl e, s', w')"
  shows "is_Exception e"
    and "(s' = configured config deps s1 \<and> w_dirs w' = w_dirs w1)
         \<or> (\<exists>T. s' = (configured config deps s1)\<lparr>temp_dir := Some T\<rparr> \<and> T \<in> set (w_dirs w'))"
    and "w_files w' = w_files w1" and "w_bound w' = w_bound w1"
    and "w_threads w' = w_threads w1" and "w_tasks w' = w_tasks w1"
    and "set (w_dirs w1) \<subseteq> set (w_dirs w')"
proof -
  define s4 where "s4 = configured config deps s1"
  define w2 where "w2 = snd (resolve_sensors deps (list_value (get_field config ''sensors'')) [] w1)"
  have w2: "w_dirs w2 = w_dirs w1" "w_files w2 = w_files w1" "w_bound w2 = w_bound w1"
    "w_threads w2 = w_threads w1" "w_tasks w2 = w_tasks w1"
    using resolve_sensors_world[of deps "list_value (get_field config ''sensors'')" "[]" w1]
    by (simp_all add: w2_def)
  have pre: "case temp_dir s4 of None \<Rightarrow> True | Some d \<Rightarrow> \<not> path_exists w2 d"
    using torn_down_fields(5)[OF td] w2
    by (simp add: s4_def configured_def path_exists_def cong: option.case_cong)
  have s4: "server s4 = None"
    using torn_down_fields(1)[OF td] by (simp add: s4_def configured_def)
  obtain r5 s5 w5 where st: "setup_temp_directory s4 w2 = (r5, s5, w5)"
    by (cases "setup_temp_directory s4 w2")
  have all: "is_Exception e
    \<and> ((s' = s4 \<and> w_dirs w' = w_dirs w1) \<or> (\<exists>T. s' = s4\<lparr>temp_dir := Some T\<rparr> \<and> T \<in> set (w_dirs w')))
    \<and> w_files w' = w_files w1 \<and> w_bound w' = w_bound w1
    \<and> w_threads w' = w_threads w1 \<and> w_tasks w' = w_tasks w1
    \<and> set (w_dirs w1) \<subseteq> set (w_dirs w')"
  proof (cases r5)
    case (Inl e5)
    have eq: "e = e5" "s' = s5" "w' = w5"
      using sg st Inl by (simp_all add: start_generation_unfold s4_def[symmetric] w2_def[symmetric])
    show ?thesis
      using setup_temp_directory_failure[OF pre st[unfolded Inl]] eq w2 by auto
  next
    case (Inr u)
    obtain T evs where T: "s5 = s4\<lparr>temp_dir := Some T\<rparr>" "T \<in> set (w_dirs w5)"
      "set (w_dirs w2) \<subseteq> set (w_dirs w5)" "w_files w5 = w_files w2" "w_bound w5 = w_bound w2"
      "w_threads w5 = w_threads w2" "w_tasks w5 = w_tasks w2"
      using setup_temp_directory_success[OF pre st[unfolded Inr]] by metis
    have s5: "server s5 = None" using T(1) s4 by simp
    obtain r6 s6 w6 where ss: "start_server s5 w5 = (r6, s6, w6)"
      by (cases "start_server s5 w5")
    show ?thesis
    proof (cases r6)
      case (Inl e6)
      have eq: "e = e6" "s' = s6" "w' = w6"
        using sg st Inr ss Inl
        by (simp_all add: start_generation_unfold s4_def[symmetric] w2_def[symmetric])
      show ?thesis
        using start_server_failure[OF s5 ss[unfolded Inl]] eq T w2 by auto
    next
      case (Inr u6)
      have False
        using sg st \<open>r5 = Inr u\<close> ss Inr
        by (simp add: start_generation_unfold s4_def[symmetric] w2_def[symmetric] split_beta)
      then show ?thesis ..
    qed
  qed
  show "is_Exception e"
    and "(s' = configured config deps s1 \<and> w_dirs w' = w_dirs w1)
         \<or> (\<exists>T. s' = (configured config deps s1)\<lparr>temp_dir := Some T\<rparr> \<and> T \<in> set (w_dirs w'))"
    and "w_files w' = w_files w1" and "w_bound w' = w_bound w1"
    and "w_threads w' = w_threads w1" and "w_tasks w' = w_tasks w1"
    and "set (w_dirs w1) \<subseteq> set (w_dirs w')"
    using all by (simp_all add: s4_def)
qed

lemma startup_not_poll: "startup_event ev \<Longrightarrow> \<not> poll_event ev"
  by (cases ev) simp_all

lemma start_generation_success:
  assumes td: "torn_down s1 w1"
    and sg: "start_generation config deps s1 w1 = (Inr u, s', w')"
  obtains T evs where
    "s' = (configured config deps s1)\<lparr>temp_dir := Some T,
        server := Some \<lparr>srv_port = configured_port config, srv_directory = Some T\<rparr>,
        server_thread := Some (length (w_threads w1)),
        refresh_task := Some (length (w_tasks w1)), running := True\<rparr>"
    and "\<not> path_exists w1 T" and "length T = 3" and "T \<in> set (w_dirs w')"
    and "set (w_dirs w1) \<subseteq> set (w_dirs w')"
    and "w_files w' = w_files w1"
    and "w_bound w' = configured_port config # w_bound w1"
    and "configured_port config \<noteq> 0 \<longrightarrow> configured_port config \<notin> set (w_bound w1)"
    and "w_threads w' = w_threads w1 @ [True]" and "w_tasks w' = w_tasks w1 @ [Pending]"
    and "w_trace w' = w_trace w1 @ evs"
    and "list_all (\<lambda>ev. \<not> poll_event ev) evs"
    and "temp_dir s1 = None \<longrightarrow> list_all startup_event evs"
    and "Mkdir T \<in> set evs" and "Socket_bind (configured_port config) \<in> set evs"
    and "Thread_start (length (w_threads w1)) \<in> set evs"
    and "Create_task (length (w_tasks w1)) \<in> set evs"
proof -
  define s4 where "s4 = configured config deps s1"
  define w2 where "w2 = snd (resolve_sensors deps (list_value (get_field config ''sensors'')) [] w1)"
  have w2: "w_dirs w2 = w_dirs w1" "w_files w2 = w_files w1" "w_bound w2 = w_bound w1"
    "w_threads w2 = w_threads w1" "w_tasks w2 = w_tasks w1" "trace_extends startup_event w1 w2"
    using resolve_sensors_world[of deps "list_value (get_field config ''sensors'')" "[]" w1]
    by (simp_all add: w2_def)
  obtain evr where evr: "w_trace w2 = w_trace w1 @ evr" "list_all startup_event evr"
    using w2(6) by (auto simp: trace_extends_def)
  have pre: "case temp_dir s4 of None \<Rightarrow> True | Some d \<Rightarrow> \<not> path_exists w2 d"
    using torn_down_fields(5)[OF td] w2
    by (simp add: s4_def configured_def path_exists_def cong: option.case_cong)
  have s4: "server s4 = None" "temp_dir s4 = temp_dir s1" "port s4 = configured_port config"
    "refresh_task s4 = refresh_task s1"
    using torn_down_fields(1)[OF td] by (simp_all add: s4_def configured_def)
  obtain r5 s5 w5 where st: "setup_temp_directory s4 w2 = (r5, s5, w5)"
    by (cases "setup_temp_directory s4 w2")
  obtain u5 where r5: "r5 = Inr u5"
    using sg st by (cases r5) (simp_all add: start_generation_unfold s4_def[symmetric] w2_def[symmetric])
  obtain T evs where T: "s5 = s4\<lparr>temp_dir := Some T\<rparr>" "\<not> path_exists w2 T" "length T = 3"
    "T \<in> set (w_dirs w5)"
    "set (w_dirs w2) \<subseteq> set (w_dirs w5)" "w_files w5 = w_files w2" "w_bound w5 = w_bound w2"
    "w_threads w5 = w_threads w2" "w_tasks w5 = w_tasks w2"
    "w_trace w5 = w_trace w2 @ (case temp_dir s4 of None \<Rightarrow> [] | Some d \<Rightarrow> [Rmtree d]) @ Mkdir T # evs"
    "list_all startup_event evs"
    using setup_temp_directory_success[OF pre st[unfolded r5]] by metis
  have s5: "server s5 = None" "port s5 = configured_port config" "temp_dir s5 = Some T"
    using T(1) s4 by simp_all
  obtain r6 s6 w6 where ss: "start_server s5 w5 = (r6, s6, w6)"
    by (cases "start_server s5 w5")
  obtain u6 where r6: "r6 = Inr u6"
    using sg st r5 ss
    by (cases r6) (simp_all add: start_generation_unfold s4_def[symmetric] w2_def[symmetric])
  have s6: "s6 = s5\<lparr>server := Some \<lparr>srv_port = port s5, srv_directory = temp_dir s5\<rparr>,
                 server_thread := Some (length (w_threads w5))\<rparr>"
    and free: "port s5 \<noteq> 0 \<longrightarrow> port s5 \<notin> set (w_bound w5)"
    and w6: "w6 = w5\<lparr>w_bound := port s5 # w_bound w5, w_threads := w_threads w5 @ [True],
                 w_trace := w_trace w5 @ [Socket_bind (port s5), Thread_start (length (w_threads w5)),
                    Log (Server_started (port s5))]\<rparr>"
    using start_server_success[OF s5(1) ss[unfolded r6]] by simp_all
  have idle: "case refresh_task s6 of None \<Rightarrow> True | Some t \<Rightarrow> task_done w6 t"
    using torn_down_fields(3)[OF td] s4(4) T(1,9) w2(5)
    by (simp add: s6 w6 task_done_def cong: option.case_cong)
  have fin: "s' = s6\<lparr>refresh_task := Some (length (w_tasks w6)), running := True\<rparr>"
    "w' = w6\<lparr>w_tasks := w_tasks w6 @ [Pending],
        w_trace := w_trace w6 @ [Create_task (length (w_tasks w6)),
           Log (Refresh_task_started (refresh_interval s6)),
           Log (Configured (length (sensors s6)) (port s6))]\<rparr>"
    using sg st r5 ss r6
    by (simp_all add: start_generation_unfold s4_def[symmetric] w2_def[symmetric]
        start_refresh_task_idle[OF idle] emit_def)
  define rm where "rm = (case temp_dir s1 of None \<Rightarrow> [] | Some d \<Rightarrow> [Rmtree d])"
  define tail where "tail = [Socket_bind (port s5), Thread_start (length (w_threads w5)),
      Log (Server_started (port s5)), Create_task (length (w_tasks w6)),
      Log (Refresh_task_started (refresh_interval s6)),
      Log (Configured (length (sensors s6)) (port s6))]"
  have rm: "list_all (\<lambda>ev. \<not> poll_event ev) rm" "temp_dir s1 = None \<longrightarrow> rm = []"
    by (simp_all add: rm_def split: option.split)
  have np: "list_all (\<lambda>ev. \<not> poll_event ev) evr" "list_all (\<lambda>ev. \<not> poll_event ev) evs"
    using evr(2) T(11) by (auto simp: list_all_iff startup_not_poll)
  show thesis
  proof (rule that[of T "evr @ rm @ Mkdir T # evs @ tail"])
    show "s' = (configured config deps s1)\<lparr>temp_dir := Some T,
        server := Some \<lparr>srv_port = configured_port config, srv_directory = Some T\<rparr>,
        server_thread := Some (length (w_threads w1)),
        refresh_task := Some (length (w_tasks w1)), running := True\<rparr>"
      using fin(1) s6 T(1,8,9) w2(4,5) s5 by (simp add: s4_def w6)
    show "\<not> path_exists w1 T" using T(2) w2 by (simp add: path_exists_def)
    show "length T = 3" by (rule T(3))
    show "T \<in> set (w_dirs w')" using T(4) by (simp add: fin(2) w6)
    show "set (w_dirs w1) \<subseteq> set (w_dirs w')" using T(5) w2(1) by (simp add: fin(2) w6)
    show "w_files w' = w_files w1" using T(6) w2(2) by (simp add: fin(2) w6)
    show "w_bound w' = configured_port config # w_bound w1"
      using T(7) w2(3) s5(2) by (simp add: fin(2) w6)
    show "configured_port config \<noteq> 0 \<longrightarrow> configured_port config \<notin> set (w_bound w1)"
      using free s5(2) T(7) w2(3) by simp
    show "w_threads w' = w_threads w1 @ [True]" using T(8) w2(4) by (simp add: fin(2) w6)
    show "w_tasks w' = w_tasks w1 @ [Pending]" using T(9) w2(5) by (simp add: fin(2) w6)
    show "w_trace w' = w_trace w1 @ evr @ rm @ Mkdir T # evs @ tail"
      using T(10) evr(1) s4(2) by (simp add: fin(2) w6 rm_def tail_def)
    show "list_all (\<lambda>ev. \<not> poll_event ev) (evr @ rm @ Mkdir T # evs @ tail)"
      using np rm(1) by (simp add: tail_def)
    show "temp_dir s1 = None \<longrightarrow> list_all startup_event (evr @ rm @ Mkdir T # evs @ tail)"
      using evr(2) T(11) rm(2) by (simp add: tail_def)
    show "Mkdir T \<in> set (evr @ rm @ Mkdir T # evs @ tail)" by simp
    show "Socket_bind (configured_port config) \<in> set (evr @ rm @ Mkdir T # evs @ tail)"
      using s5(2) by (simp add: tail_def)
    show "Thread_start (length (w_threads w1)) \<in> set (evr @ rm @ Mkdir T # evs @ tail)"
      using T(8) w2(4) by (simp add: tail_def)
    show "Create_task (length (w_tasks w1)) \<in> set (evr @ rm @ Mkdir T # evs @ tail)"
      using T(9) w2(5) by (simp add: tail_def w6)
  qed
qed

section \<open>A Configure that fails\<close>

lemma stop_server_removes_root:
  assumes "temp_dir s = Some d" and "d \<in> set (w_dirs w) \<or> \<not> path_exists w d"
  shows "\<not> path_exists (snd (stop_server s w)) d"
  using assms by (auto simp: path_exists_def stop_server_world)

lemmas eval_defs = reconfigure_def start_generation_def stop_server_def stop_refresh_task_def stop_http_server_def
  stop_server_thread_def remove_temp_dir_def init_def boot_world_def busy_world_def
  example_config_def second_config_def example_deps_def get_field_def get_resource_name_def
  setup_temp_directory_def mkdtemp_def shm_def path_join_def path_exists_def makedirs_def
  emit_def start_server_def http_server_new_def thread_start_def start_refresh_task_def
  create_task_def py_int_def Let_def temp1_def temp2_def example_root_def task_done_def
  task_cancel_def is_alive_def thread_join_def server_shutdown_def server_close_def rmtree_def




section \<open>Status\<close>


lemma reconfigure_fields:
  "port (fst (snd (reconfigure config deps s w))) = configured_port config
    \<and> sensors (fst (snd (reconfigure config deps s w))) = configured_sensors deps config
    \<and> refresh_interval (fst (snd (reconfigure config deps s w))) = configured_interval config
    \<and> running (fst (snd (reconfigure config deps s w))) = (fst (reconfigure config deps s w) = Inr ())
    \<and> (fst (reconfigure config deps s w) = Inr () \<longrightarrow>
         (\<exists>T. temp_dir (fst (snd (reconfigure config deps s w))) = Some T
            \<and> T \<in> set (w_dirs (snd (snd (reconfigure config deps s w))))
            \<and> server (fst (snd (reconfigure config deps s w))) =
                Some \<lparr>srv_port = configured_port config, srv_directory = Some T\<rparr>))"
proof -
  define s1 where "s1 = fst (stop_server s w)"
  define w1 where "w1 = snd (stop_server s w)"
  have td: "torn_down s1 w1"
    unfolding s1_def w1_def by (rule torn_down_stop_server)
  obtain r s' w' where R: "reconfigure config deps s w = (r, s', w')"
    by (cases "reconfigure config deps s w")
  have sg: "start_generation config deps s1 w1 = (r, s', w')"
    using R by (simp add: reconfigure_eq s1_def w1_def)
  show ?thesis
  proof (cases r)
    case (Inl e)
    have "s' = configured config deps s1 \<or> (\<exists>T. s' = (configured config deps s1)\<lparr>temp_dir := Some T\<rparr>)"
      using start_generation_failure(2)[OF td sg[unfolded Inl]] by auto
    then show ?thesis
      using R Inl torn_down_fields(2)[OF td] by (auto simp: configured_def)
  next
    case (Inr u)
    obtain T where "s' = (configured config deps s1)\<lparr>temp_dir := Some T,
        server := Some \<lparr>srv_port = configured_port config, srv_directory = Some T\<rparr>,
        server_thread := Some (length (w_threads w1)),
        refresh_task := Some (length (w_tasks w1)), running := True\<rparr>" "T \<in> set (w_dirs w')"
      using start_generation_success[OF td sg[unfolded Inr]] by metis
    then show ?thesis
      using R Inr by (simp add: configured_def)
  qed
qed



section \<open>Two Configures in succession\<close>

lemma reconfigure_success:
  assumes "reconfigure config deps s w = (Inr u, s', w')"
  obtains T evs where
    "s' = (configured config deps (fst (stop_server s w)))\<lparr>temp_dir := Some T,
        server := Some \<lparr>srv_port = configured_port config, srv_directory = Some T\<rparr>,
        server_thread := Some (length (w_threads (snd (stop_server s w)))),
        refresh_task := Some (length (w_tasks (snd (stop_server s w)))), running := True\<rparr>"
    and "\<not> path_exists (snd (stop_server s w)) T" and "length T = 3" and "T \<in> set (w_dirs w')"
    and "w_files w' = w_files (snd (stop_server s w))"
    and "w_bound w' = configured_port config # w_bound (snd (stop_server s w))"
    and "configured_port config \<noteq> 0 \<longrightarrow> configured_port config \<notin> set (w_bound (snd (stop_server s w)))"
    and "w_threads w' = w_threads (snd (stop_server s w)) @ [True]"
    and "w_tasks w' = w_tasks (snd (stop_server s w)) @ [Pending]"
    and "w_trace w' = w_trace (snd (stop_server s w)) @ evs"
    and "list_all (\<lambda>ev. \<not> poll_event ev) evs"
    and "temp_dir (fst (stop_server s w)) = None \<longrightarrow> list_all startup_event evs"
    and "Mkdir T \<in> set evs" and "Socket_bind (configured_port config) \<in> set evs"
    and "Thread_start (length (w_threads (snd (stop_server s w)))) \<in> set evs"
    and "Create_task (length (w_tasks (snd (stop_server s w)))) \<in> set evs"
proof -
  have td: "torn_down (fst (stop_server s w)) (snd (stop_server s w))"
    by (rule torn_down_stop_server)
  have sg: "start_generation config deps (fst (stop_server s w)) (snd (stop_server s w)) = (Inr u, s', w')"
    using assms by (simp add: reconfigure_eq)
  show thesis
    using start_generation_success[OF td sg] that by metis
qed



section \<open>The first poll\<close>

subsection \<open>The file system stays well formed\<close>

lemma prefix_butlast: "prefix d (butlast p) \<Longrightarrow> prefix d p"
  by (metis prefix_order.trans prefixeq_butlast)

lemma fs_wf_stop_server:
  assumes "fs_wf w"
  shows "fs_wf (snd (stop_server s w))"
proof (cases "temp_dir s")
  case None
  then show ?thesis using assms by (simp add: fs_wf_def stop_server_world)
next
  case (Some d)
  show ?thesis
  proof (cases "d \<in> set (w_dirs w)")
    case True
    then show ?thesis
      using assms Some by (auto simp: fs_wf_def stop_server_world dest: prefix_butlast)
  next
    case False
    then show ?thesis using assms Some by (simp add: fs_wf_def stop_server_world)
  qed
qed

lemma fresh_directory_is_empty:
  assumes "fs_wf w" and "\<not> path_exists w T"
  shows "w_files w (path_join (path_join T n) c) = None"
proof (rule ccontr)
  assume "w_files w (path_join (path_join T n) c) \<noteq> None"
  then have "path_join T n \<in> set (w_dirs w)"
    using assms(1) unfolding fs_wf_def by (metis butlast_path_join)
  then have "T \<in> set (w_dirs w)"
    using assms(1) unfolding fs_wf_def by (metis butlast_path_join path_join_not_Nil)
  then show False using assms(2) by (simp add: path_exists_def)
qed

subsection \<open>The loop sleeps first\<close>

lemma refresh_iteration_trace:
  "case refresh_iteration json_dump t s w of
     (True, w1) \<Rightarrow> \<exists>evs. w_trace w1 = w_trace w @ Sleep (refresh_interval s) # evs
   | (False, w1) \<Rightarrow> w_trace w1 = w_trace w
        \<or> (\<exists>evs. w_trace w1 = w_trace w @ Sleep (refresh_interval s) # evs)"
proof -
  define w0 where "w0 = emit (Sleep (refresh_interval s)) w"
  obtain r w2 where u: "update_all_sensor_readings json_dump s w0 = (r, w2)"
    by (cases "update_all_sensor_readings json_dump s w0")
  have "prefix (w_trace w0) (w_trace (snd (update_all_sensor_readings json_dump s w0)))"
    by (simp add: update_all_sensor_readings_def)
  then have "prefix (w_trace w0) (w_trace w2)"
    using u by simp
  then obtain evs where evs: "w_trace w2 = w_trace w @ Sleep (refresh_interval s) # evs"
    by (auto simp: prefix_def w0_def)
  show ?thesis
    using u evs
    by (cases r) (auto simp: refresh_iteration_def asyncio_sleep_def w0_def[symmetric])
qed

lemma refresh_loop_trace:
  "w_trace (snd (refresh_readings_loop n json_dump t s w)) = w_trace w
   \<or> (\<exists>evs. w_trace (snd (refresh_readings_loop n json_dump t s w)) =
          w_trace w @ Sleep (refresh_interval s) # evs)"
proof (induction n arbitrary: w)
  case 0
  show ?case by simp
next
  case (Suc n)
  obtain b w1 where i: "refresh_iteration json_dump t s w = (b, w1)"
    by (cases "refresh_iteration json_dump t s w")
  show ?case
  proof (cases b)
    case False
    then show ?thesis
      using i refresh_iteration_trace[where json_dump=json_dump and t=t and s=s and w=w] by auto
  next
    case True
    then obtain evs where evs: "w_trace w1 = w_trace w @ Sleep (refresh_interval s) # evs"
      using i refresh_iteration_trace[where json_dump=json_dump and t=t and s=s and w=w] by auto
    show ?thesis
      using Suc.IH[of w1] i True evs by auto
  qed
qed

lemma refresh_loop_sleeps_first:
  "new_events w (snd (refresh_readings_loop n json_dump t s w)) = []
   \<or> (\<exists>evs. new_events w (snd (refresh_readings_loop n json_dump t s w)) =
          Sleep (refresh_interval s) # evs)"
  using refresh_loop_trace[of n json_dump t s w] by (auto simp: new_events_def)

lemma refresh_iteration_sleeps:
  assumes "running s" and "t < length (w_tasks w)" and "w_tasks w ! t = Pending"
  shows "\<exists>evs. w_trace (snd (refresh_iteration json_dump t s w)) =
           w_trace w @ Sleep (refresh_interval s) # evs"
proof -
  define w0 where "w0 = emit (Sleep (refresh_interval s)) w"
  obtain r w2 where u: "update_all_sensor_readings json_dump s w0 = (r, w2)"
    by (cases "update_all_sensor_readings json_dump s w0")
  have "prefix (w_trace w0) (w_trace (snd (update_all_sensor_readings json_dump s w0)))"
    by (simp add: update_all_sensor_readings_def)
  then have "prefix (w_trace w0) (w_trace w2)"
    using u by simp
  then obtain evs where evs: "w_trace w2 = w_trace w @ Sleep (refresh_interval s) # evs"
    by (auto simp: prefix_def w0_def)
  show ?thesis
    using u evs assms
    by (cases r) (auto simp: refresh_iteration_def asyncio_sleep_def w0_def[symmetric])
qed

lemma refresh_loop_sleeps:
  assumes "running s" and "t < length (w_tasks w)" and "w_tasks w ! t = Pending"
  shows "\<exists>evs. new_events w (snd (refresh_readings_loop (Suc n) json_dump t s w)) =
           Sleep (refresh_interval s) # evs"
proof -
  obtain b w1 where i: "refresh_iteration json_dump t s w = (b, w1)"
    by (cases "refresh_iteration json_dump t s w")
  obtain evs where evs: "w_trace w1 = w_trace w @ Sleep (refresh_interval s) # evs"
    using refresh_iteration_sleeps[OF assms, of json_dump] i by auto
  show ?thesis
  proof (cases b)
    case False
    then show ?thesis using i evs by (simp add: new_events_def)
  next
    case True
    then show ?thesis
      using i evs refresh_loop_trace[of n json_dump t s w1] by (auto simp: new_events_def)
  qed
qed

lemma stop_server_no_poll:
  "list_all (\<lambda>ev. \<not> poll_event ev) (new_events w (snd (stop_server s w)))"
  by (simp add: new_events_def stop_server_world split: option.split)

text \<open>
  Claim C10. A successful Configure on a well-formed file system performs no poll: none
  of its events is a sleep, a fetch or a write of a file, and afterwards no source of the
  new generation has a \<open>current.json\<close>. The refresh loop, run by any task for any
  number of turns from there, either has done nothing yet or has first slept for the
  refresh interval; run by the task Configure created, its first turn does sleep for the
  interval before anything else. So a snapshot appears only after that sleep, or through
  the pass of a manual refresh.
\<close>

theorem no_snapshot_before_first_interval:
  assumes "reconfigure config deps s w = (Inr (), s', w')" and "fs_wf w"
  shows "(\<forall>x \<in> set (sensors s'). \<forall>d. temp_dir s' = Some d \<longrightarrow> w_files w' (current_file d x) = None)
    \<and> list_all (\<lambda>ev. \<not> poll_event ev) (new_events w w')
    \<and> (new_events w' (snd (refresh_readings_loop n json_dump t s' w')) = []
        \<or> (\<exists>evs. new_events w' (snd (refresh_readings_loop n json_dump t s' w')) =
               Sleep (refresh_interval s') # evs))
    \<and> (refresh_task s' = Some t \<longrightarrow>
         (\<exists>evs. new_events w' (snd (refresh_readings_loop (Suc n) json_dump t s' w')) =
               Sleep (refresh_interval s') # evs))"
proof -
  define wa where "wa = snd (stop_server s w)"
  obtain T evs where g:
    "s' = (configured config deps (fst (stop_server s w)))\<lparr>temp_dir := Some T,
        server := Some \<lparr>srv_port = configured_port config, srv_directory = Some T\<rparr>,
        server_thread := Some (length (w_threads wa)),
        refresh_task := Some (length (w_tasks wa)), running := True\<rparr>"
    "\<not> path_exists wa T" "w_files w' = w_files wa" "w_tasks w' = w_tasks wa @ [Pending]"
    "w_trace w' = w_trace wa @ evs" "list_all (\<lambda>ev. \<not> poll_event ev) evs"
    using reconfigure_success[OF assms(1)] unfolding wa_def by metis
  have wf: "fs_wf wa"
    unfolding wa_def using assms(2) by (rule fs_wf_stop_server)
  have files: "\<forall>x \<in> set (sensors s'). \<forall>d. temp_dir s' = Some d \<longrightarrow> w_files w' (current_file d x) = None"
    using fresh_directory_is_empty[OF wf g(2)] g(3)
    by (simp add: g(1) current_file_def sensor_dir_def)
  have "prefix (w_trace w) (w_trace wa)"
    by (simp add: wa_def stop_server_world)
  moreover have "prefix (w_trace wa) (w_trace w')"
    by (simp add: g(5))
  ultimately have "new_events w w' = new_events w wa @ new_events wa w'"
    by (rule new_events_append)
  moreover have "new_events wa w' = evs"
    by (simp add: new_events_def g(5))
  ultimately have quiet: "list_all (\<lambda>ev. \<not> poll_event ev) (new_events w w')"
    using stop_server_no_poll[of w s] g(6) by (simp add: wa_def)
  have live: "running s'" "refresh_task s' = Some (length (w_tasks wa))"
    by (simp_all add: g(1))
  have first: "refresh_task s' = Some t \<longrightarrow>
         (\<exists>evs. new_events w' (snd (refresh_readings_loop (Suc n) json_dump t s' w')) =
               Sleep (refresh_interval s') # evs)"
  proof
    assume "refresh_task s' = Some t"
    then have t: "t = length (w_tasks wa)" using live(2) by simp
    show "\<exists>evs. new_events w' (snd (refresh_readings_loop (Suc n) json_dump t s' w')) =
               Sleep (refresh_interval s') # evs"
      by (rule refresh_loop_sleeps[OF live(1)]) (simp_all add: t g(4))
  qed
  show ?thesis
    using files quiet first refresh_loop_sleeps_first[of w' n json_dump t s'] by blast
qed

theorem no_snapshot_before_first_interval_witness:
  "reconfigure (example_config 8090) example_deps init boot_world = (Inr (), example_host, example_world)
   \<and> fs_wf boot_world
   \<and> temp1 \<in> set (sensors example_host)
   \<and> temp_dir example_host = Some example_root
   \<and> refresh_task example_host = Some 0
   \<and> w_files example_world (current_file example_root temp1) = None
   \<and> list_all (\<lambda>ev. \<not> poll_event ev) (new_events boot_world example_world)
   \<and> (\<exists>evs. new_events example_world
                (snd (refresh_readings_loop (Suc 0) example_dump 0 example_host example_world)) =
              Sleep 1 # evs)"
proof -
  have wf: "fs_wf boot_world"
    by (simp add: fs_wf_def boot_world_def shm_def)
  have h: "temp1 \<in> set (sensors example_host)" "temp_dir example_host = Some example_root"
    "refresh_task example_host = Some 0" "refresh_interval example_host = 1"
    by (simp_all add: example_host_def)
  show ?thesis
    using no_snapshot_before_first_interval[OF example_configured wf, of 0 example_dump 0]
      example_configured wf h
    by auto
qed

end
